theory Spec2Isabelle
  imports Complex_Main "HOL-Library.Log_Nat"
begin

section \<open>ISS overhead notifier: the program as HOL functions\<close>

text \<open>
  The program is \<^verbatim>\<open>src/ISS_overhead_project/main1.py\<close>: two fetchers that read
  web APIs, two pure predicates, a notifier that sends a mail, and \<^verbatim>\<open>main\<close>, an
  endless loop that polls once a minute and keeps one Boolean,
  \<^verbatim>\<open>email_sent_for_current_pass\<close>.

  Conventions of the embedding.
  \<^item> A Python \<^verbatim>\<open>float\<close> is the real number it denotes. What produces a float
    (a decimal literal, the conversion of an integer, a subtraction) rounds the exact
    result to the nearest double, ties to even: \<open>double_round\<close>.
    \<^verbatim>\<open>nan\<close> and the infinities are outside the model. A Python \<^verbatim>\<open>int\<close>
    is an \<open>int\<close>.
  \<^item> A value that may be \<^verbatim>\<open>None\<close> is an \<open>option\<close>.
  \<^item> A call that may raise yields \<open>py_exc + 'a\<close>, with \<open>Inl\<close> the exception.
  \<^item> What the outside world answers (the two HTTP requests, the clock, the SMTP
    session) is an input of the function that asks for it.
  \<^item> What the program does to the outside world (lines printed, calls made,
    assignments to the flag) is a list of events, in program order.
\<close>

subsection \<open>Double-precision numbers\<close>

text \<open>
  Rounding to the nearest integer, a tie going to the even neighbour.
\<close>

definition round_even :: "real \<Rightarrow> int" where
  "round_even y =
     (let n = \<lfloor>y\<rfloor>; r = y - of_int n
      in if r < 1 / 2 then n else if 1 / 2 < r then n + 1 else if even n then n else n + 1)"

text \<open>
  The binary exponent of \<open>x \<noteq> 0\<close>: the \<open>e\<close> with \<open>2^e \<le> \<bar>x\<bar> < 2^(e+1)\<close>, found
  from the bit length of the integer part of \<open>\<bar>x\<bar>\<close>, or of \<open>1 / \<bar>x\<bar>\<close> when
  \<open>\<bar>x\<bar> < 1\<close>.
\<close>

definition exponent :: "real \<Rightarrow> int" where
  "exponent x =
     (if 1 \<le> \<bar>x\<bar> then bitlen \<lfloor>\<bar>x\<bar>\<rfloor> - 1
      else (let k = bitlen \<lfloor>1 / \<bar>x\<bar>\<rfloor> - 1
            in if \<bar>x\<bar> * 2 ^ nat k = 1 then - k else - k - 1))"

text \<open>
  The spacing of the doubles around \<open>x\<close>: 52 binary places below its exponent, and
  \<open>2^-1074\<close> throughout the subnormal range.
\<close>

definition ulp :: "real \<Rightarrow> real" where
  "ulp x = 2 powi (max (exponent x) (- 1022) - 52)"

text \<open>
  The double nearest to \<open>x\<close>, ties to even (the rounding of IEEE 754 binary64 that
  Python uses). Beyond the largest double the program gets an infinity; the model
  then keeps a number of that size, which compares with 5 as the infinity does.
\<close>

definition double_round :: "real \<Rightarrow> real" where
  "double_round x = (if x = 0 then 0 else of_int (round_even (x / ulp x)) * ulp x)"

subsection \<open>Configuration (lines 10-22)\<close>

text \<open>The observer: the doubles that the two decimal literals denote.\<close>

definition MY_LAT :: real where
  "MY_LAT = double_round 26.5458"

definition MY_LONG :: real where
  "MY_LONG = double_round 77.0197"

text \<open>
  The three values read with \<^verbatim>\<open>os.environ.get\<close>: \<open>None\<close> when the variable is
  not set.
\<close>

record config =
  SENDER_EMAIL :: "string option"
  RECEIVER_EMAIL :: "string option"
  EMAIL_PASSWORD :: "string option"

subsection \<open>Exceptions and JSON values\<close>

text \<open>
  \<open>RequestException\<close> stands for \<^verbatim>\<open>requests.exceptions.RequestException\<close> and
  all its subclasses (connection errors, timeouts, \<^verbatim>\<open>HTTPError\<close>): the one class
  the fetchers catch. The others are the built-in exceptions that indexing, attribute
  access and the conversions \<^verbatim>\<open>float\<close> and \<^verbatim>\<open>int\<close> raise.
\<close>

datatype py_exc =
    RequestException
  | KeyError
  | TypeError
  | ValueError
  | IndexError
  | AttributeError
  | OverflowError

text \<open>
  A decoded JSON document, as \<^verbatim>\<open>response.json()\<close> returns it. An object is the
  list of the items of the decoded \<^verbatim>\<open>dict\<close>; a number without fraction or
  exponent is a Python \<^verbatim>\<open>int\<close>, any other a \<^verbatim>\<open>float\<close>, given by the double
  the decoder made of it.
\<close>

datatype json =
    JNull
  | JBool bool
  | JInt int
  | JFloat real
  | JStr string
  | JArr "json list"
  | JObj "(string \<times> json) list"

text \<open>
  The answer to one \<^verbatim>\<open>requests.get\<close>: the call raises, or it returns a response
  with a status code whose \<^verbatim>\<open>json()\<close> method raises or returns a document.
\<close>

record response =
  status_code :: nat
  json_result :: "py_exc + json"

type_synonym http_answer = "py_exc + response"

text \<open>Sequencing of calls that may raise: the first exception ends the block.\<close>

definition and_then :: "py_exc + 'a \<Rightarrow> ('a \<Rightarrow> py_exc + 'b) \<Rightarrow> py_exc + 'b" where
  "and_then r f = (case r of Inl e \<Rightarrow> Inl e | Inr v \<Rightarrow> f v)"

text \<open>\<^verbatim>\<open>response.raise_for_status()\<close>: an \<^verbatim>\<open>HTTPError\<close> for a 4xx or 5xx status.\<close>

definition raise_for_status :: "response \<Rightarrow> py_exc + unit" where
  "raise_for_status r =
     (if 400 \<le> status_code r \<and> status_code r < 600 then Inl RequestException else Inr ())"

text \<open>\<^verbatim>\<open>v[key]\<close> with a string key.\<close>

fun subscript :: "json \<Rightarrow> string \<Rightarrow> py_exc + json" where
  "subscript (JObj items) key =
     (case map_of items key of None \<Rightarrow> Inl KeyError | Some v \<Rightarrow> Inr v)"
| "subscript _ key = Inl TypeError"

text \<open>
  \<^verbatim>\<open>float(v)\<close>. On a string the result is that of Python's parser, which is not
  part of the repository and is taken as the parameter \<open>float_of_str\<close>: \<open>Some x\<close>
  where it returns \<open>x\<close>, \<open>None\<close> where it raises \<^verbatim>\<open>ValueError\<close>. An integer is
  rounded to the nearest double, and raises \<^verbatim>\<open>OverflowError\<close> when that is
  beyond the largest double; a float is returned as it is.
\<close>

fun py_float :: "(string \<Rightarrow> real option) \<Rightarrow> json \<Rightarrow> py_exc + real" where
  "py_float float_of_str (JStr s) =
     (case float_of_str s of None \<Rightarrow> Inl ValueError | Some x \<Rightarrow> Inr x)"
| "py_float float_of_str (JInt n) =
     (if 2 ^ 1024 \<le> \<bar>double_round (of_int n)\<bar> then Inl OverflowError
      else Inr (double_round (of_int n)))"
| "py_float float_of_str (JFloat x) = Inr x"
| "py_float float_of_str (JBool b) = Inr (if b then 1 else 0)"
| "py_float float_of_str _ = Inl TypeError"

text \<open>
  \<^verbatim>\<open>s.split(c)\<close> for a separator of one character: the pieces between the
  occurrences of \<open>c\<close>, always at least one.
\<close>

fun split_on :: "char \<Rightarrow> string \<Rightarrow> string list" where
  "split_on c [] = [[]]"
| "split_on c (x # xs) =
     (if x = c then [] # split_on c xs
      else (case split_on c xs of [] \<Rightarrow> [[x]] | w # ws \<Rightarrow> (x # w) # ws))"

text \<open>\<^verbatim>\<open>v.split(c)\<close>: only a string has the method.\<close>

fun py_split :: "json \<Rightarrow> char \<Rightarrow> py_exc + string list" where
  "py_split (JStr s) c = Inr (split_on c s)"
| "py_split _ c = Inl AttributeError"

text \<open>\<^verbatim>\<open>xs[i]\<close> for a list and an index that is not negative.\<close>

definition item :: "'a list \<Rightarrow> nat \<Rightarrow> py_exc + 'a" where
  "item xs i = (if i < length xs then Inr (xs ! i) else Inl IndexError)"

text \<open>
  \<^verbatim>\<open>int(s)\<close> on a string; Python's parser is the parameter \<open>int_of_str\<close>, as for
  \<open>py_float\<close>.
\<close>

definition py_int :: "(string \<Rightarrow> int option) \<Rightarrow> string \<Rightarrow> py_exc + int" where
  "py_int int_of_str s = (case int_of_str s of None \<Rightarrow> Inl ValueError | Some n \<Rightarrow> Inr n)"

subsection \<open>The fetchers (lines 34-64)\<close>

text \<open>The body of the \<^verbatim>\<open>try\<close> block of \<^verbatim>\<open>get_iss_location\<close>, lines 37-42.\<close>

definition iss_location_try ::
  "(string \<Rightarrow> real option) \<Rightarrow> http_answer \<Rightarrow> py_exc + (real \<times> real)" where
  "iss_location_try float_of_str answer =
     and_then answer (\<lambda>response.
     and_then (raise_for_status response) (\<lambda>_.
     and_then (json_result response) (\<lambda>data.
     and_then (subscript data ''iss_position'') (\<lambda>p1.
     and_then (subscript p1 ''latitude'') (\<lambda>v1.
     and_then (py_float float_of_str v1) (\<lambda>iss_latitude.
     and_then (subscript data ''iss_position'') (\<lambda>p2.
     and_then (subscript p2 ''longitude'') (\<lambda>v2.
     and_then (py_float float_of_str v2) (\<lambda>iss_longitude.
     Inr (iss_latitude, iss_longitude))))))))))"

text \<open>
  \<^verbatim>\<open>get_iss_location\<close>: the pair of coordinates; \<^verbatim>\<open>(None, None)\<close> when the block
  raised a \<^verbatim>\<open>RequestException\<close>; any other exception leaves the function.
\<close>

definition get_iss_location ::
  "(string \<Rightarrow> real option) \<Rightarrow> http_answer \<Rightarrow> py_exc + (real option \<times> real option)" where
  "get_iss_location float_of_str answer =
     (case iss_location_try float_of_str answer of
        Inr (iss_latitude, iss_longitude) \<Rightarrow> Inr (Some iss_latitude, Some iss_longitude)
      | Inl RequestException \<Rightarrow> Inr (None, None)
      | Inl e \<Rightarrow> Inl e)"

text \<open>
  The hour of an ISO timestamp, as lines 59 and 60 read it:
  \<^verbatim>\<open>int(v.split("T")[1].split(":")[0])\<close>.
\<close>

definition hour_of :: "(string \<Rightarrow> int option) \<Rightarrow> json \<Rightarrow> py_exc + int" where
  "hour_of int_of_str v =
     and_then (py_split v CHR ''T'') (\<lambda>parts.
     and_then (item parts 1) (\<lambda>clock.
     and_then (item (split_on CHR '':'' clock) 0) (\<lambda>hh.
     py_int int_of_str hh)))"

text \<open>The body of the \<^verbatim>\<open>try\<close> block of \<^verbatim>\<open>get_sunrise_sunset_times\<close>, lines 56-61.\<close>

definition sunrise_sunset_try ::
  "(string \<Rightarrow> int option) \<Rightarrow> http_answer \<Rightarrow> py_exc + (int \<times> int)" where
  "sunrise_sunset_try int_of_str answer =
     and_then answer (\<lambda>response.
     and_then (raise_for_status response) (\<lambda>_.
     and_then (json_result response) (\<lambda>data.
     and_then (subscript data ''results'') (\<lambda>r1.
     and_then (subscript r1 ''sunrise'') (\<lambda>v1.
     and_then (hour_of int_of_str v1) (\<lambda>sunrise_utc.
     and_then (subscript data ''results'') (\<lambda>r2.
     and_then (subscript r2 ''sunset'') (\<lambda>v2.
     and_then (hour_of int_of_str v2) (\<lambda>sunset_utc.
     Inr (sunrise_utc, sunset_utc))))))))))"

text \<open>
  \<^verbatim>\<open>get_sunrise_sunset_times(latitude, longitude)\<close>. The coordinates go into the
  request; the answer to that request is the argument \<open>answer\<close>.
\<close>

definition get_sunrise_sunset_times ::
  "(string \<Rightarrow> int option) \<Rightarrow> real \<Rightarrow> real \<Rightarrow> http_answer
     \<Rightarrow> py_exc + (int option \<times> int option)" where
  "get_sunrise_sunset_times int_of_str latitude longitude answer =
     (case sunrise_sunset_try int_of_str answer of
        Inr (sunrise_utc, sunset_utc) \<Rightarrow> Inr (Some sunrise_utc, Some sunset_utc)
      | Inl RequestException \<Rightarrow> Inr (None, None)
      | Inl e \<Rightarrow> Inl e)"

subsection \<open>The predicates (lines 67-82)\<close>

text \<open>
  \<^verbatim>\<open>is_iss_overhead\<close>. Each subtraction yields a double; \<^verbatim>\<open>math.fabs\<close> and the
  comparison with 5 are exact.
\<close>

definition is_iss_overhead :: "real \<Rightarrow> real \<Rightarrow> real \<Rightarrow> real \<Rightarrow> bool" where
  "is_iss_overhead my_lat my_long iss_lat iss_long =
     (if \<bar>double_round (my_lat - iss_lat)\<bar> < 5 \<and> \<bar>double_round (my_long - iss_long)\<bar> < 5
      then True else False)"

fun is_night :: "int option \<Rightarrow> int option \<Rightarrow> int \<Rightarrow> bool" where
  "is_night None sunset_utc current_utc_hour = True"
| "is_night sunrise_utc None current_utc_hour = True"
| "is_night (Some sunrise_utc) (Some sunset_utc) current_utc_hour =
     (if sunset_utc < sunrise_utc
      then current_utc_hour \<ge> sunset_utc \<or> current_utc_hour < sunrise_utc
      else current_utc_hour \<ge> sunset_utc \<and> current_utc_hour < sunrise_utc)"

subsection \<open>Events\<close>

text \<open>
  What one run does, in order: the calls to the fetchers and to the notifier, the
  lines \<^verbatim>\<open>main\<close> and the notifier print, the assignments to
  \<^verbatim>\<open>email_sent_for_current_pass\<close> inside the loop, and the sleep. The line a
  fetcher prints when it catches an exception is not recorded.
\<close>

datatype event =
    Print_started
  | Print_monitoring
  | Print_no_credentials
  | Print_will_send
  | Call_get_iss_location
  | Print_location real real
  | Print_in_range
  | Call_get_sunrise_sunset_times
  | Print_dark
  | Print_visible
  | Call_send "string option" "string option" "string option" real real
  | Print_email_sent
  | Print_email_failed
  | Assign_sent bool
  | Print_daytime
  | Print_not_overhead
  | Print_waiting
  | Sleep_60

subsection \<open>The notifier (lines 85-111)\<close>

text \<open>
  \<^verbatim>\<open>send_iss_notification_email\<close>. The SMTP session of lines 104-107 succeeds or
  raises an \<^verbatim>\<open>Exception\<close> (\<open>smtp_raises\<close>); line 109 catches it, so the function
  returns either way. \<open>Call_send\<close> marks the call, \<open>Print_email_failed\<close> is the two
  lines 110-111. Building the message and the TLS context (lines 87-102) is taken to
  succeed.
\<close>

definition send_iss_notification_email ::
  "string option \<Rightarrow> string option \<Rightarrow> string option \<Rightarrow> real \<Rightarrow> real \<Rightarrow> bool \<Rightarrow> event list" where
  "send_iss_notification_email sender_email receiver_email password iss_lat iss_long smtp_raises =
     Call_send sender_email receiver_email password iss_lat iss_long #
     (if smtp_raises then [Print_email_failed] else [Print_email_sent])"

subsection \<open>The main program (lines 115-159)\<close>

text \<open>
  Python's truth value of a configuration variable: \<^verbatim>\<open>not v\<close> holds for
  \<^verbatim>\<open>None\<close> and for the empty string.
\<close>

definition falsy :: "string option \<Rightarrow> bool" where
  "falsy v = (case v of None \<Rightarrow> True | Some s \<Rightarrow> s = [])"

text \<open>
  Lines 116-127: the banner and the value of \<^verbatim>\<open>send_emails\<close>.
  \<open>Print_no_credentials\<close> is the two lines of the warning.
\<close>

definition main_setup :: "config \<Rightarrow> event list \<times> bool" where
  "main_setup cfg =
     (if falsy (SENDER_EMAIL cfg) \<or> falsy (RECEIVER_EMAIL cfg) \<or> falsy (EMAIL_PASSWORD cfg)
      then ([Print_started, Print_monitoring, Print_no_credentials], False)
      else ([Print_started, Print_monitoring, Print_will_send], True))"

text \<open>
  What the world answers during one iteration: the outcome of
  \<^verbatim>\<open>get_iss_location()\<close>; the outcome of
  \<^verbatim>\<open>get_sunrise_sunset_times(MY_LAT, MY_LONG)\<close>, used only when the call is made;
  \<^verbatim>\<open>time.gmtime().tm_hour\<close>; and whether the SMTP session raises.
\<close>

record observation =
  iss_location :: "py_exc + (real option \<times> real option)"
  sun_times :: "py_exc + (int option \<times> int option)"
  utc_hour :: int
  smtp_raises :: bool

text \<open>
  One iteration of \<^verbatim>\<open>while True\<close>, lines 133-159, from the value \<open>sent\<close> of
  \<^verbatim>\<open>email_sent_for_current_pass\<close>: the events, and the exception that ends the
  program or the value of the flag for the next iteration.
\<close>

definition main_iteration ::
  "config \<Rightarrow> bool \<Rightarrow> observation \<Rightarrow> bool \<Rightarrow> event list \<times> (py_exc + bool)" where
  "main_iteration cfg send_emails ob sent =
     (case iss_location ob of
        Inl e \<Rightarrow> ([Call_get_iss_location], Inl e)
      | Inr (None, iss_longitude) \<Rightarrow>
          ([Call_get_iss_location, Print_waiting, Sleep_60], Inr sent)
      | Inr (Some iss_latitude, None) \<Rightarrow>
          ([Call_get_iss_location, Print_waiting, Sleep_60], Inr sent)
      | Inr (Some iss_latitude, Some iss_longitude) \<Rightarrow>
          (if is_iss_overhead MY_LAT MY_LONG iss_latitude iss_longitude then
             (case sun_times ob of
                Inl e \<Rightarrow>
                  ([Call_get_iss_location, Print_location iss_latitude iss_longitude,
                    Print_in_range, Call_get_sunrise_sunset_times], Inl e)
              | Inr (sunrise_utc, sunset_utc) \<Rightarrow>
                  (if is_night sunrise_utc sunset_utc (utc_hour ob) then
                     (if send_emails \<and> \<not> sent then
                        ([Call_get_iss_location, Print_location iss_latitude iss_longitude,
                          Print_in_range, Call_get_sunrise_sunset_times,
                          Print_dark, Print_visible]
                         @ send_iss_notification_email (SENDER_EMAIL cfg) (RECEIVER_EMAIL cfg)
                             (EMAIL_PASSWORD cfg) iss_latitude iss_longitude (smtp_raises ob)
                         @ [Assign_sent True, Print_waiting, Sleep_60],
                         Inr True)
                      else
                        ([Call_get_iss_location, Print_location iss_latitude iss_longitude,
                          Print_in_range, Call_get_sunrise_sunset_times,
                          Print_dark, Print_visible, Print_waiting, Sleep_60],
                         Inr sent))
                   else
                     ([Call_get_iss_location, Print_location iss_latitude iss_longitude,
                       Print_in_range, Call_get_sunrise_sunset_times,
                       Print_daytime, Assign_sent False, Print_waiting, Sleep_60],
                      Inr False)))
           else
             ([Call_get_iss_location, Print_location iss_latitude iss_longitude,
               Print_not_overhead, Assign_sent False, Print_waiting, Sleep_60],
              Inr False)))"

text \<open>
  The loop. It has no exit of its own, so a run is followed for as many iterations as
  there are observations: the events of these iterations, and the exception that
  ended the program or the flag after the last of them.
\<close>

fun main_loop ::
  "config \<Rightarrow> bool \<Rightarrow> observation list \<Rightarrow> bool \<Rightarrow> event list \<times> (py_exc + bool)" where
  "main_loop cfg send_emails [] sent = ([], Inr sent)"
| "main_loop cfg send_emails (ob # obs) sent =
     (case main_iteration cfg send_emails ob sent of
        (evs, Inl e) \<Rightarrow> (evs, Inl e)
      | (evs, Inr sent') \<Rightarrow>
          (case main_loop cfg send_emails obs sent' of (evs', r) \<Rightarrow> (evs @ evs', r)))"

text \<open>\<^verbatim>\<open>main\<close>: the setup, then the loop from the flag \<open>False\<close> (line 130).\<close>

definition main :: "config \<Rightarrow> observation list \<Rightarrow> event list \<times> (py_exc + bool)" where
  "main cfg obs =
     (case main_setup cfg of (evs, send_emails) \<Rightarrow>
        (case main_loop cfg send_emails obs False of (evs', r) \<Rightarrow> (evs @ evs', r)))"

text \<open>
  One iteration from the raw answers of the two APIs: the fetchers turn them into the
  outcomes \<open>main_iteration\<close> reads.
\<close>

record world =
  iss_answer :: http_answer
  sun_answer :: http_answer
  clock_hour :: int
  smtp_error :: bool

definition observe ::
  "(string \<Rightarrow> real option) \<Rightarrow> (string \<Rightarrow> int option) \<Rightarrow> world \<Rightarrow> observation" where
  "observe float_of_str int_of_str w =
     \<lparr>iss_location = get_iss_location float_of_str (iss_answer w),
      sun_times = get_sunrise_sunset_times int_of_str MY_LAT MY_LONG (sun_answer w),
      utc_hour = clock_hour w,
      smtp_raises = smtp_error w\<rparr>"

subsection \<open>Observers used by the properties\<close>

text \<open>A call of the notifier.\<close>

fun is_send :: "event \<Rightarrow> bool" where
  "is_send (Call_send s r p la lo) = True"
| "is_send _ = False"

definition sends :: "event list \<Rightarrow> nat" where
  "sends evs = length (filter is_send evs)"

text \<open>
  The monitoring part of a run: the calls to the fetchers, the status lines of
  \<^verbatim>\<open>main\<close> and the sleep; not the notifier, its two lines, or the assignments.
\<close>

fun is_monitoring :: "event \<Rightarrow> bool" where
  "is_monitoring (Call_send s r p la lo) = False"
| "is_monitoring Print_email_sent = False"
| "is_monitoring Print_email_failed = False"
| "is_monitoring (Assign_sent b) = False"
| "is_monitoring _ = True"

text \<open>The position was fetched.\<close>

definition position_available :: "observation \<Rightarrow> bool" where
  "position_available ob =
     (case iss_location ob of Inr (Some la, Some lo) \<Rightarrow> True | _ \<Rightarrow> False)"

text \<open>
  The fetcher returned without a position: the test of line 135 fails. (The
  fetcher itself returns \<^verbatim>\<open>(None, None)\<close> then.)
\<close>

definition position_unavailable :: "observation \<Rightarrow> bool" where
  "position_unavailable ob =
     (case iss_location ob of
        Inr (Some la, Some lo) \<Rightarrow> False
      | Inr _ \<Rightarrow> True
      | Inl e \<Rightarrow> False)"

text \<open>The position was fetched and \<open>is_iss_overhead\<close> holds of it.\<close>

definition overhead :: "observation \<Rightarrow> bool" where
  "overhead ob =
     (case iss_location ob of
        Inr (Some la, Some lo) \<Rightarrow> is_iss_overhead MY_LAT MY_LONG la lo
      | _ \<Rightarrow> False)"

text \<open>The daylight fetcher returned and \<open>is_night\<close> holds of what it returned.\<close>

definition night :: "observation \<Rightarrow> bool" where
  "night ob =
     (case sun_times ob of Inr (sr, ss) \<Rightarrow> is_night sr ss (utc_hour ob) | Inl e \<Rightarrow> False)"

text \<open>The daylight fetcher returned and \<open>is_night\<close> does not hold.\<close>

definition day :: "observation \<Rightarrow> bool" where
  "day ob =
     (case sun_times ob of Inr (sr, ss) \<Rightarrow> \<not> is_night sr ss (utc_hour ob) | Inl e \<Rightarrow> False)"

text \<open>An iteration of an overhead-and-night interval.\<close>

definition dark_pass :: "observation \<Rightarrow> bool" where
  "dark_pass ob = (overhead ob \<and> night ob)"

text \<open>
  The number of continuous overhead-and-night intervals in a sequence of iterations:
  the maximal blocks of consecutive \<open>dark_pass\<close> iterations. \<open>inside\<close> tells
  whether the iteration before the sequence was one.
\<close>

fun intervals :: "bool \<Rightarrow> observation list \<Rightarrow> nat" where
  "intervals inside [] = 0"
| "intervals inside (ob # obs) =
     (if dark_pass ob then (if inside then 0 else 1) + intervals True obs
      else intervals False obs)"

definition monitoring :: "event list \<Rightarrow> event list" where
  "monitoring evs = filter is_monitoring evs"

text \<open>How a run ended: the exception that stopped the program, if one did.\<close>

definition ending :: "py_exc + bool \<Rightarrow> py_exc option" where
  "ending r = (case r of Inl e \<Rightarrow> Some e | Inr sent \<Rightarrow> None)"

text \<open>The events of an iteration up to its first call of the notifier.\<close>

definition before_send :: "event list \<Rightarrow> event list" where
  "before_send evs = takeWhile (\<lambda>e. \<not> is_send e) evs"

subsection \<open>Inputs of the examples\<close>

text \<open>A configuration with the three variables set.\<close>

definition credentials :: config where
  "credentials =
     \<lparr>SENDER_EMAIL = Some ''sender@example.org'',
      RECEIVER_EMAIL = Some ''receiver@example.org'',
      EMAIL_PASSWORD = Some ''app-password''\<rparr>"

text \<open>The same without the password.\<close>

definition no_password :: config where
  "no_password = credentials\<lparr>EMAIL_PASSWORD := None\<rparr>"

text \<open>
  The station half a degree from the observer, at 20 h UTC, with sunrise at 18 h and
  sunset at 6 h UTC: overhead and night.
\<close>

definition overhead_night :: observation where
  "overhead_night =
     \<lparr>iss_location = Inr (Some 27, Some 77.5),
      sun_times = Inr (Some 18, Some 6),
      utc_hour = 20,
      smtp_raises = False\<rparr>"

text \<open>The same position at noon UTC, with sunrise at 6 h and sunset at 18 h: overhead and day.\<close>

definition overhead_day :: observation where
  "overhead_day =
     \<lparr>iss_location = Inr (Some 27, Some 77.5),
      sun_times = Inr (Some 6, Some 18),
      utc_hour = 12,
      smtp_raises = False\<rparr>"

text \<open>The station over the South Atlantic: not overhead.\<close>

definition elsewhere :: observation where
  "elsewhere = overhead_night\<lparr>iss_location := Inr (Some (-30), Some (-20))\<rparr>"

text \<open>The position fetcher returned \<^verbatim>\<open>(None, None)\<close>.\<close>

definition no_position :: observation where
  "no_position = overhead_night\<lparr>iss_location := Inr (None, None)\<rparr>"

text \<open>Overhead and night, and the SMTP session raises.\<close>

definition failing_send :: observation where
  "failing_send = overhead_night\<lparr>smtp_raises := True\<rparr>"

text \<open>A parser that rejects every string; it stands where no string is parsed.\<close>

definition rejecting :: "string \<Rightarrow> 'a option" where
  "rejecting s = None"

text \<open>The request for the position fails in transport.\<close>

definition connection_error :: world where
  "connection_error =
     \<lparr>iss_answer = Inl RequestException,
      sun_answer = Inl RequestException,
      clock_hour = 20,
      smtp_error = False\<rparr>"

text \<open>
  The position API answers 200 with the document \<^verbatim>\<open>{"message": "success"}\<close>, which
  has no \<^verbatim>\<open>iss_position\<close>.
\<close>

definition missing_position :: world where
  "missing_position =
     connection_error\<lparr>iss_answer :=
       Inr \<lparr>status_code = 200,
            json_result = Inr (JObj [(''message'', JStr ''success'')])\<rparr>\<rparr>"

text \<open>
  The position API answers 200 with
  \<^verbatim>\<open>{"iss_position": {"latitude": null, "longitude": null}}\<close>.
\<close>

definition null_position :: world where
  "null_position =
     connection_error\<lparr>iss_answer :=
       Inr \<lparr>status_code = 200,
            json_result =
              Inr (JObj [(''iss_position'',
                     JObj [(''latitude'', JNull), (''longitude'', JNull)])])\<rparr>\<rparr>"

section \<open>Properties\<close>

subsection \<open>Rounding to a double\<close>

lemma exponent_bounds:
  assumes "x \<noteq> 0"
  shows "2 powi (exponent x) \<le> \<bar>x\<bar> \<and> \<bar>x\<bar> < 2 powi (exponent x + 1)"
proof (cases "1 \<le> \<bar>x\<bar>")
  case True
  define n where "n = \<lfloor>\<bar>x\<bar>\<rfloor>"
  have n: "0 < n" using True by (simp add: n_def)
  have e: "exponent x = bitlen n - 1" using True by (simp add: exponent_def n_def)
  have b: "1 \<le> bitlen n" using n by (simp add: bitlen_alt_def)
  from bitlen_bounds[OF n] have lo: "2 ^ nat (bitlen n - 1) \<le> n" and hi: "n < 2 ^ nat (bitlen n)"
    by auto
  have "(2::real) ^ nat (bitlen n - 1) \<le> of_int n"
    using lo by (metis of_int_le_iff of_int_numeral of_int_power)
  also have "\<dots> \<le> \<bar>x\<bar>" by (simp add: n_def)
  finally have 1: "(2::real) ^ nat (bitlen n - 1) \<le> \<bar>x\<bar>" .
  have "n + 1 \<le> 2 ^ nat (bitlen n)" using hi by simp
  then have "of_int (n + 1) \<le> (2::real) ^ nat (bitlen n)"
    by (metis of_int_le_iff of_int_numeral of_int_power)
  moreover have "\<bar>x\<bar> < of_int (n + 1)" by (simp add: n_def)
  ultimately have 2: "\<bar>x\<bar> < (2::real) ^ nat (bitlen n)" by simp
  show ?thesis using 1 2 b by (simp add: e power_int_def)
next
  case False
  define y where "y = 1 / \<bar>x\<bar>"
  define m where "m = \<lfloor>y\<rfloor>"
  define k where "k = bitlen m - 1"
  have x: "0 < \<bar>x\<bar>" "\<bar>x\<bar> < 1" using assms False by auto
  have y: "1 < y" using x by (simp add: y_def)
  have m: "0 < m" using y by (simp add: m_def)
  have b: "1 \<le> bitlen m" using m by (simp add: bitlen_alt_def)
  then have k: "0 \<le> k" by (simp add: k_def)
  from bitlen_bounds[OF m] have lo: "2 ^ nat k \<le> m" and hi: "m < 2 ^ nat (k + 1)"
    by (auto simp: k_def)
  have "(2::real) ^ nat k \<le> of_int m"
    using lo by (metis of_int_le_iff of_int_numeral of_int_power)
  also have "\<dots> \<le> y" by (simp add: m_def)
  finally have 1: "(2::real) ^ nat k \<le> y" .
  have "m + 1 \<le> 2 ^ nat (k + 1)" using hi by simp
  then have "of_int (m + 1) \<le> (2::real) ^ nat (k + 1)"
    by (metis of_int_le_iff of_int_numeral of_int_power)
  moreover have "y < of_int (m + 1)" by (simp add: m_def)
  ultimately have 2: "y < (2::real) ^ nat (k + 1)" by simp
  have lo': "\<bar>x\<bar> * 2 ^ nat k \<le> 1"
    using 1 x by (simp add: y_def field_simps)
  have hi': "1 < \<bar>x\<bar> * 2 ^ nat (k + 1)"
    using 2 x by (simp add: y_def field_simps)
  have e: "exponent x = (if \<bar>x\<bar> * 2 ^ nat k = 1 then - k else - k - 1)"
    using False by (simp add: exponent_def y_def m_def k_def Let_def)
  have q: "(2::real) powi (i + 1) = 2 * 2 powi i" for i :: int
    by (simp add: power_int_add)
  have p1: "(2::real) powi (- k) = 1 / 2 ^ nat k"
    using k by (simp add: power_int_minus power_int_def field_simps)
  have p2: "(2::real) powi (- k) = 2 * 2 powi (- k - 1)"
    using q[of "- k - 1"] by simp
  have s: "(2::real) ^ nat (k + 1) = 2 * 2 ^ nat k"
    using k by (simp add: nat_add_distrib)
  show ?thesis
  proof (cases "\<bar>x\<bar> * 2 ^ nat k = 1")
    case True
    then have "\<bar>x\<bar> = 1 / 2 ^ nat k" by (simp add: field_simps)
    then have "\<bar>x\<bar> = 2 powi (- k)" using p1 by simp
    moreover have "0 < (2::real) powi (- k)" by simp
    ultimately show ?thesis using e True q[of "- k"] by simp
  next
    case F: False
    then have "\<bar>x\<bar> * 2 ^ nat k < 1" using lo' by simp
    then have "\<bar>x\<bar> < 1 / 2 ^ nat k" by (simp add: field_simps)
    then have a: "\<bar>x\<bar> < 2 powi (- k)" using p1 by simp
    have "1 / (2 * 2 ^ nat k) \<le> \<bar>x\<bar>" using hi' s by (simp add: field_simps)
    moreover have "(2::real) powi (- k - 1) = 1 / (2 * 2 ^ nat k)"
    proof -
      have "2 * (2::real) powi (- k - 1) = 1 / 2 ^ nat k" using p1 p2 by simp
      then show ?thesis by (simp add: field_simps)
    qed
    ultimately have b: "2 powi (- k - 1) \<le> \<bar>x\<bar>" by simp
    show ?thesis using e F a b by simp
  qed
qed

lemma round_even_of_int: "round_even (of_int n) = n"
  by (simp add: round_even_def)

lemma round_even_ge: "of_int n \<le> y \<Longrightarrow> n \<le> round_even y"
proof -
  assume "of_int n \<le> y"
  then have "n \<le> \<lfloor>y\<rfloor>" by (simp add: le_floor_iff)
  then show ?thesis by (auto simp: round_even_def Let_def)
qed

lemma round_even_le: "y \<le> of_int n \<Longrightarrow> round_even y \<le> n"
proof (cases "y = of_int n")
  case True
  then show ?thesis by (simp add: round_even_of_int)
next
  case False
  assume "y \<le> of_int n"
  with False have "y < of_int n" by simp
  then have "\<lfloor>y\<rfloor> < n" by (simp add: floor_less_iff)
  then show ?thesis by (auto simp: round_even_def Let_def)
qed


lemma scaled_round_ge:
  assumes "0 < u" and "of_int n * u \<le> x"
  shows "of_int n * u \<le> of_int (round_even (x / u)) * u"
proof -
  have "of_int n \<le> x / u" using assms by (simp add: field_simps)
  then have "n \<le> round_even (x / u)" by (rule round_even_ge)
  then have "(of_int n :: real) \<le> of_int (round_even (x / u))" by simp
  then show ?thesis using assms(1) by (simp add: mult_right_mono)
qed

lemma scaled_round_le:
  assumes "0 < u" and "x \<le> of_int n * u"
  shows "of_int (round_even (x / u)) * u \<le> of_int n * u"
proof -
  have "x / u \<le> of_int n" using assms by (simp add: field_simps)
  then have "round_even (x / u) \<le> n" by (rule round_even_le)
  then have "(of_int (round_even (x / u)) :: real) \<le> of_int n" by simp
  then show ?thesis using assms(1) by (simp add: mult_right_mono)
qed

lemma exponent_ge_2:
  assumes "5 \<le> \<bar>x\<bar>"
  shows "2 \<le> exponent x"
proof (rule ccontr)
  assume "\<not> 2 \<le> exponent x"
  then have "exponent x + 1 \<le> 2" by simp
  then have "(2::real) powi (exponent x + 1) \<le> 2 powi 2"
    by (intro power_int_increasing) auto
  moreover have "\<bar>x\<bar> < 2 powi (exponent x + 1)"
    using exponent_bounds[of x] assms by auto
  ultimately show False using assms by simp
qed

lemma ulp_pos: "0 < ulp x"
  by (simp add: ulp_def)

text \<open>
  For a value of size 5 or more, some multiple of its unit lies between 5 and that
  size: 5 itself in the binade from 4 to 8, the power of two that starts the binade
  above it.
\<close>

lemma threshold_multiple:
  assumes "5 \<le> \<bar>x\<bar>"
  obtains n :: int where "5 \<le> of_int n * ulp x" and "of_int n * ulp x \<le> \<bar>x\<bar>"
proof (cases "exponent x = 2")
  case True
  then have u: "ulp x = 1 / 2 ^ 50"
    by (simp add: ulp_def power_int_minus field_simps)
  have "of_int (5 * 2 ^ 50) * ulp x = 5" by (simp add: u)
  with assms that[of "5 * 2 ^ 50"] show ?thesis by simp
next
  case False
  with exponent_ge_2[OF assms] have e: "3 \<le> exponent x" by simp
  then have m: "max (exponent x) (- 1022) = exponent x" by simp
  have "(2::real) powi (52 + (exponent x - 52)) = 2 powi 52 * 2 powi (exponent x - 52)"
    by (rule power_int_add) simp
  then have "(2::real) powi (exponent x) = 2 ^ 52 * 2 powi (exponent x - 52)"
    by simp
  then have v: "of_int (2 ^ 52) * ulp x = 2 powi (exponent x)"
    by (simp add: ulp_def m)
  have "(2::real) powi 3 \<le> 2 powi (exponent x)"
    using e by (intro power_int_increasing) auto
  then have "5 \<le> (2::real) powi (exponent x)" by simp
  moreover have "2 powi (exponent x) \<le> \<bar>x\<bar>"
    using exponent_bounds[of x] assms by auto
  ultimately show ?thesis using that[of "2 ^ 52"] v by simp
qed

lemma double_round_ge_5:
  assumes "5 \<le> x"
  shows "5 \<le> double_round x"
proof -
  have a: "5 \<le> \<bar>x\<bar>" using assms by simp
  from threshold_multiple[OF a] obtain n :: int
    where n: "5 \<le> of_int n * ulp x" "of_int n * ulp x \<le> \<bar>x\<bar>" by blast
  have "of_int n * ulp x \<le> x" using n assms by simp
  from scaled_round_ge[OF ulp_pos this] n(1) assms show ?thesis
    by (simp add: double_round_def)
qed

lemma double_round_le_minus_5:
  assumes "x \<le> - 5"
  shows "double_round x \<le> - 5"
proof -
  have a: "5 \<le> \<bar>x\<bar>" using assms by simp
  from threshold_multiple[OF a] obtain n :: int
    where n: "5 \<le> of_int n * ulp x" "of_int n * ulp x \<le> \<bar>x\<bar>" by blast
  have "x \<le> of_int (- n) * ulp x" using n assms by simp
  from scaled_round_le[OF ulp_pos this] n(1) assms show ?thesis
    by (simp add: double_round_def)
qed

lemma double_round_abs_ge_5: "5 \<le> \<bar>x\<bar> \<Longrightarrow> 5 \<le> \<bar>double_round x\<bar>"
  using double_round_ge_5[of x] double_round_le_minus_5[of x] by (cases "0 \<le> x") auto

lemma double_round_abs_less_5: "\<bar>double_round x\<bar> < 5 \<Longrightarrow> \<bar>x\<bar> < 5"
  using double_round_abs_ge_5[of x] by (cases "\<bar>x\<bar> < 5") auto


lemma scale_mono: "0 < u \<Longrightarrow> (m::int) \<le> n \<Longrightarrow> of_int m * u \<le> (of_int n :: real) * u"
  by (simp add: mult_right_mono)

lemma round_even_below_half: "y < of_int n - 1 / 2 \<Longrightarrow> round_even y \<le> n - 1"
proof -
  assume a: "y < of_int n - 1 / 2"
  then have "y < of_int n" by simp
  then have f: "\<lfloor>y\<rfloor> \<le> n - 1" by (simp add: floor_less_iff)
  show ?thesis
  proof (cases "\<lfloor>y\<rfloor> = n - 1")
    case True
    then have "y - of_int \<lfloor>y\<rfloor> < 1 / 2" using a by simp
    then show ?thesis using True by (simp add: round_even_def Let_def)
  next
    case False
    with f have "\<lfloor>y\<rfloor> \<le> n - 2" by simp
    then show ?thesis by (auto simp: round_even_def Let_def)
  qed
qed

lemma round_even_above_half: "of_int n + 1 / 2 < y \<Longrightarrow> n + 1 \<le> round_even y"
proof -
  assume a: "of_int n + 1 / 2 < y"
  then have "of_int n \<le> y" by simp
  then have f: "n \<le> \<lfloor>y\<rfloor>" by (simp add: le_floor_iff)
  show ?thesis
  proof (cases "\<lfloor>y\<rfloor> = n")
    case True
    then have "1 / 2 < y - of_int \<lfloor>y\<rfloor>" using a by simp
    then show ?thesis using True by (simp add: round_even_def Let_def)
  next
    case False
    with f have "n + 1 \<le> \<lfloor>y\<rfloor>" by simp
    then show ?thesis by (auto simp: round_even_def Let_def)
  qed
qed

lemma round_even_tie_up: "of_int n - 1 / 2 \<le> y \<Longrightarrow> even n \<Longrightarrow> n \<le> round_even y"
proof (cases "of_int n \<le> y")
  case True
  then show ?thesis by (rule round_even_ge)
next
  case False
  assume a: "of_int n - 1 / 2 \<le> y" and e: "even n"
  have "of_int (n - 1) \<le> y" using a by simp
  moreover have "y < of_int (n - 1) + 1" using False by simp
  ultimately have f: "\<lfloor>y\<rfloor> = n - 1" by (simp add: floor_unique)
  have "odd (n - 1)" using e by simp
  moreover have "1 / 2 \<le> y - of_int (n - 1)" using a by simp
  ultimately show ?thesis using f by (auto simp: round_even_def Let_def)
qed

lemma round_even_tie_down: "y \<le> of_int n + 1 / 2 \<Longrightarrow> even n \<Longrightarrow> round_even y \<le> n"
proof (cases "y < of_int n")
  case True
  then have "y \<le> of_int n" by simp
  then show ?thesis by (rule round_even_le)
next
  case False
  assume a: "y \<le> of_int n + 1 / 2" and e: "even n"
  have "of_int n \<le> y" using False by simp
  moreover have "y < of_int n + 1" using a by simp
  ultimately have f: "\<lfloor>y\<rfloor> = n" by (simp add: floor_unique)
  have "y - of_int n \<le> 1 / 2" using a by simp
  then show ?thesis using f e by (auto simp: round_even_def Let_def)
qed

text \<open>Below 5 the unit is at most \<open>2^-50\<close>, and 5 is an even multiple of it.\<close>

lemma unit_below_5:
  assumes "x \<noteq> 0" and "\<bar>x\<bar> < 5"
  obtains n :: int where "even n" and "of_int n * ulp x = 5" and "ulp x \<le> 1 / 2 ^ 50"
proof -
  define e where "e = max (exponent x) (- 1022)"
  have "exponent x \<le> 2"
  proof (rule ccontr)
    assume "\<not> exponent x \<le> 2"
    then have "(2::real) powi 3 \<le> 2 powi (exponent x)"
      by (intro power_int_increasing) auto
    moreover have "2 powi (exponent x) \<le> \<bar>x\<bar>"
      using exponent_bounds[OF assms(1)] by simp
    ultimately show False using assms(2) by simp
  qed
  then have e: "e \<le> 2" by (simp add: e_def)
  define k where "k = nat (52 - e)"
  have k: "50 \<le> k" "int k = 52 - e" using e by (simp_all add: k_def)
  have u: "ulp x = 1 / 2 ^ k"
  proof -
    have "e - 52 = - int k" using k by simp
    then have "ulp x = 2 powi (- int k)" by (simp add: ulp_def e_def[symmetric])
    then show ?thesis by (simp add: power_int_minus field_simps)
  qed
  have p: "(2::real) ^ 50 \<le> 2 ^ k" using k(1) by (intro power_increasing) auto
  have 1: "even (5 * 2 ^ k :: int)" using k(1) by simp
  have 2: "of_int (5 * 2 ^ k) * ulp x = 5" by (simp add: u)
  have 3: "ulp x \<le> 1 / 2 ^ 50" using p by (simp add: u field_simps)
  show ?thesis using that[OF 1 2 3] .
qed

lemma double_round_below_5:
  assumes "\<bar>x\<bar> < 5 - 1 / 2 ^ 51"
  shows "\<bar>double_round x\<bar> < 5"
proof (cases "x = 0")
  case True
  then show ?thesis by (simp add: double_round_def)
next
  case False
  have b: "\<bar>x\<bar> < 5" using assms by (simp add: field_simps)
  from unit_below_5[OF False b] obtain n :: int
    where n: "even n" "of_int n * ulp x = 5" "ulp x \<le> 1 / 2 ^ 50" by blast
  have pos: "0 < ulp x" by (rule ulp_pos)
  have h: "ulp x / 2 \<le> 1 / 2 ^ 51" using n(3) by simp
  have up: "x / ulp x < of_int n - 1 / 2"
  proof -
    have "x < 5 - ulp x / 2" using assms h by simp
    then have "x < of_int n * ulp x - ulp x / 2" using n(2) by simp
    then show ?thesis using pos by (simp add: field_simps)
  qed
  have dn: "of_int (- n) + 1 / 2 < x / ulp x"
  proof -
    have "- 5 + ulp x / 2 < x" using assms h by simp
    then have "- (of_int n * ulp x) + ulp x / 2 < x" using n(2) by simp
    then show ?thesis using pos by (simp add: field_simps)
  qed
  have d: "double_round x = of_int (round_even (x / ulp x)) * ulp x"
    using False by (simp add: double_round_def)
  have "of_int (round_even (x / ulp x)) * ulp x \<le> of_int (n - 1) * ulp x"
    by (rule scale_mono[OF pos round_even_below_half[OF up]])
  moreover have "of_int (n - 1) * ulp x = 5 - ulp x" using n(2) by (simp add: algebra_simps)
  ultimately have 1: "double_round x < 5" using pos d by linarith
  have "of_int (- n + 1) * ulp x \<le> of_int (round_even (x / ulp x)) * ulp x"
    by (rule scale_mono[OF pos round_even_above_half[OF dn]])
  moreover have "of_int (- n + 1) * ulp x = - 5 + ulp x" using n(2) by (simp add: algebra_simps)
  ultimately have 2: "- 5 < double_round x" using pos d by linarith
  show ?thesis using 1 2 by simp
qed

lemma double_round_near_5:
  assumes "5 - 1 / 2 ^ 51 \<le> \<bar>x\<bar>"
  shows "5 \<le> \<bar>double_round x\<bar>"
proof (cases "5 \<le> \<bar>x\<bar>")
  case True
  then show ?thesis by (rule double_round_abs_ge_5)
next
  case False
  then have b: "\<bar>x\<bar> < 5" by simp
  have nz: "x \<noteq> 0" using assms by (auto simp: field_simps)
  have four: "4 \<le> \<bar>x\<bar>" using assms by (simp add: field_simps)
  have "exponent x = 2"
  proof -
    have "\<not> exponent x + 1 \<le> 2"
    proof
      assume "exponent x + 1 \<le> 2"
      then have "(2::real) powi (exponent x + 1) \<le> 2 powi 2"
        by (intro power_int_increasing) auto
      then show False using exponent_bounds[OF nz] four by simp
    qed
    moreover have "\<not> 3 \<le> exponent x"
    proof
      assume "3 \<le> exponent x"
      then have "(2::real) powi 3 \<le> 2 powi (exponent x)"
        by (intro power_int_increasing) auto
      then show False using exponent_bounds[OF nz] b by simp
    qed
    ultimately show ?thesis by simp
  qed
  then have u: "ulp x = 1 / 2 ^ 50"
    by (simp add: ulp_def power_int_minus field_simps)
  define n :: int where "n = 5 * 2 ^ 50"
  have n: "even n" "of_int n * ulp x = 5" by (simp_all add: n_def u)
  have pos: "0 < ulp x" by (rule ulp_pos)
  have d: "double_round x = of_int (round_even (x / ulp x)) * ulp x"
    using nz by (simp add: double_round_def)
  show ?thesis
  proof (cases "0 \<le> x")
    case True
    have "of_int n * ulp x - ulp x / 2 \<le> x" using assms True n(2) by (simp add: u)
    then have "of_int n - 1 / 2 \<le> x / ulp x" using pos by (simp add: field_simps)
    from scale_mono[OF pos round_even_tie_up[OF this n(1)]]
    show ?thesis using n(2) d by linarith
  next
    case F: False
    have m: "even (- n)" using n(1) by simp
    have mn: "of_int (- n) * ulp x = - 5" using n(2) by simp
    have "x \<le> - (of_int n * ulp x) + ulp x / 2" using assms F n(2) by (simp add: u)
    then have "x / ulp x \<le> of_int (- n) + 1 / 2" using pos by (simp add: field_simps)
    from scale_mono[OF pos round_even_tie_down[OF this m]]
    show ?thesis using mn d by linarith
  qed
qed

lemma double_round_less_5_iff: "\<bar>double_round x\<bar> < 5 \<longleftrightarrow> \<bar>x\<bar> < 5 - 1 / 2 ^ 51"
  using double_round_below_5[of x] double_round_near_5[of x]
  by (cases "\<bar>x\<bar> < 5 - 1 / 2 ^ 51") auto

text \<open>The two observer constants, as fractions.\<close>

lemma MY_LAT_value: "MY_LAT = 1867994609191433 / 2 ^ 46"
  unfolding MY_LAT_def by code_simp

lemma MY_LONG_value: "MY_LONG = 1354944891485107 / 2 ^ 44"
  unfolding MY_LONG_def by code_simp

text \<open>
  The predicate in terms of the exact differences: a difference counts as below 5
  when it is below \<open>5 - 2^-51\<close>; from there up to 5 it rounds to \<open>5.0\<close>.
\<close>

lemma is_iss_overhead_iff:
  "is_iss_overhead my_lat my_long iss_lat iss_long \<longleftrightarrow>
     \<bar>my_lat - iss_lat\<bar> < 5 - 1 / 2 ^ 51 \<and> \<bar>my_long - iss_long\<bar> < 5 - 1 / 2 ^ 51"
  by (simp add: is_iss_overhead_def double_round_less_5_iff)

subsection \<open>Unfolding rules and auxiliary facts\<close>

lemmas obs_defs = position_available_def position_unavailable_def overhead_def night_def
  day_def dark_pass_def

lemmas run_defs = main_def main_setup_def falsy_def main_iteration_def is_iss_overhead_iff
  send_iss_notification_email_def sends_def monitoring_def ending_def before_send_def

lemmas example_defs = credentials_def no_password_def overhead_night_def overhead_day_def
  elsewhere_def no_position_def failing_send_def rejecting_def connection_error_def
  missing_position_def null_position_def MY_LAT_value MY_LONG_value

lemma sends_append: "sends (xs @ ys) = sends xs + sends ys"
  by (simp add: sends_def)

lemma monitoring_append: "monitoring (xs @ ys) = monitoring xs @ monitoring ys"
  by (simp add: monitoring_def)

lemma is_night_None: "sunrise = None \<or> sunset = None \<Longrightarrow> is_night sunrise sunset h"
  by (cases sunrise; cases sunset) auto

text \<open>
  The hour plays no part in \<open>is_night\<close>: once sunset is before sunrise, every hour is
  at or after sunset or before sunrise.
\<close>

lemma wrapped_window_always_night:
  "sunset < sunrise \<Longrightarrow> is_night (Some sunrise) (Some sunset) h"
  by auto

paragraph \<open>One iteration, branch by branch\<close>

lemma iteration_raises:
  "iss_location ob = Inl e \<Longrightarrow> main_iteration cfg se ob sent = ([Call_get_iss_location], Inl e)"
  by (simp add: main_iteration_def)

lemma iteration_unavailable:
  "position_unavailable ob \<Longrightarrow>
     main_iteration cfg se ob sent = ([Call_get_iss_location, Print_waiting, Sleep_60], Inr sent)"
  by (auto simp: main_iteration_def position_unavailable_def
      split: sum.splits option.splits prod.splits)

lemma iteration_not_overhead:
  "position_available ob \<Longrightarrow> \<not> overhead ob \<Longrightarrow>
     snd (main_iteration cfg se ob sent) = Inr False"
  by (auto simp: main_iteration_def position_available_def overhead_def
      split: sum.splits option.splits prod.splits)

lemma iteration_day:
  "overhead ob \<Longrightarrow> day ob \<Longrightarrow> snd (main_iteration cfg se ob sent) = Inr False"
  by (auto simp: main_iteration_def overhead_def day_def
      split: sum.splits option.splits prod.splits)

lemma iteration_dark:
  "dark_pass ob \<Longrightarrow>
     snd (main_iteration cfg se ob sent) = Inr (se \<or> sent) \<and>
     sends (fst (main_iteration cfg se ob sent)) = (if se \<and> \<not> sent then 1 else 0)"
  by (auto simp: main_iteration_def dark_pass_def overhead_def night_def sends_def
      send_iss_notification_email_def split: sum.splits option.splits prod.splits)

lemma iteration_not_dark:
  "\<not> dark_pass ob \<Longrightarrow> sends (fst (main_iteration cfg se ob sent)) = 0"
  by (auto simp: main_iteration_def dark_pass_def overhead_def night_def sends_def
      split: sum.splits option.splits prod.splits)

lemma iteration_no_credentials:
  "sends (fst (main_iteration cfg False ob sent)) = 0"
  by (auto simp: main_iteration_def sends_def split: sum.splits option.splits prod.splits)

lemma iteration_sent_no_send:
  "sends (fst (main_iteration cfg se ob True)) = 0"
  by (auto simp: main_iteration_def sends_def split: sum.splits option.splits prod.splits)

lemma iteration_calls_fetcher:
  "Call_get_iss_location \<in> set (fst (main_iteration cfg se ob sent))"
  by (auto simp: main_iteration_def split: sum.splits option.splits prod.splits)

lemma iteration_monitoring:
  "monitoring (fst (main_iteration cfg se ob sent))
     = monitoring (fst (main_iteration cfg' se' ob sent'))"
  by (auto simp: main_iteration_def monitoring_def send_iss_notification_email_def
      split: sum.splits option.splits prod.splits)

lemma iteration_ending:
  "ending (snd (main_iteration cfg se ob sent))
     = ending (snd (main_iteration cfg' se' ob sent'))"
  by (auto simp: main_iteration_def ending_def split: sum.splits option.splits prod.splits)

lemma iteration_send_failure:
  "iss_location ob = Inr (Some la, Some lo) \<Longrightarrow> is_iss_overhead MY_LAT MY_LONG la lo \<Longrightarrow>
   night ob \<Longrightarrow> smtp_raises ob \<Longrightarrow>
   main_iteration cfg True ob False =
     ([Call_get_iss_location, Print_location la lo, Print_in_range,
       Call_get_sunrise_sunset_times, Print_dark, Print_visible,
       Call_send (SENDER_EMAIL cfg) (RECEIVER_EMAIL cfg) (EMAIL_PASSWORD cfg) la lo,
       Print_email_failed, Assign_sent True, Print_waiting, Sleep_60],
      Inr True)"
  by (auto simp: main_iteration_def night_def send_iss_notification_email_def
      split: sum.splits option.splits prod.splits)

lemma iteration_trace_not_overhead:
  "iss_location ob = Inr (Some la, Some lo) \<Longrightarrow> \<not> is_iss_overhead MY_LAT MY_LONG la lo \<Longrightarrow>
   main_iteration cfg se ob sent =
     ([Call_get_iss_location, Print_location la lo, Print_not_overhead, Assign_sent False,
       Print_waiting, Sleep_60],
      Inr False)"
  by (simp add: main_iteration_def)

lemma iteration_trace_day:
  "iss_location ob = Inr (Some la, Some lo) \<Longrightarrow> is_iss_overhead MY_LAT MY_LONG la lo \<Longrightarrow>
   day ob \<Longrightarrow>
   main_iteration cfg se ob sent =
     ([Call_get_iss_location, Print_location la lo, Print_in_range,
       Call_get_sunrise_sunset_times, Print_daytime, Assign_sent False,
       Print_waiting, Sleep_60],
      Inr False)"
  by (auto simp: main_iteration_def day_def split: sum.splits prod.splits)

lemma iteration_trace_night_no_send:
  "iss_location ob = Inr (Some la, Some lo) \<Longrightarrow> is_iss_overhead MY_LAT MY_LONG la lo \<Longrightarrow>
   night ob \<Longrightarrow>
   main_iteration cfg False ob sent =
     ([Call_get_iss_location, Print_location la lo, Print_in_range,
       Call_get_sunrise_sunset_times, Print_dark, Print_visible,
       Print_waiting, Sleep_60],
      Inr sent)"
  by (auto simp: main_iteration_def night_def split: sum.splits prod.splits)

lemma iteration_smtp_independent:
  "snd (main_iteration cfg se (ob\<lparr>smtp_raises := b\<rparr>) sent)
     = snd (main_iteration cfg se ob sent)"
  by (auto simp: main_iteration_def split: sum.splits option.splits prod.splits)

lemma iteration_assign_after_send:
  "Assign_sent True \<notin> set (before_send (fst (main_iteration cfg se ob sent)))"
  by (auto simp: main_iteration_def before_send_def send_iss_notification_email_def
      split: sum.splits option.splits prod.splits)

paragraph \<open>The loop\<close>

lemma main_loop_stop:
  "main_iteration cfg se ob sent = (evs, Inl e) \<Longrightarrow>
     main_loop cfg se (ob # obs) sent = (evs, Inl e)"
  by simp

lemma main_loop_go:
  "main_iteration cfg se ob sent = (evs, Inr sent') \<Longrightarrow>
     main_loop cfg se (ob # obs) sent =
       (evs @ fst (main_loop cfg se obs sent'), snd (main_loop cfg se obs sent'))"
  by (simp split: prod.splits)

text \<open>
  The invariant behind "one send per interval": inside an interval, a program that
  sends has its flag set.
\<close>

lemma loop_sends_le_intervals:
  "(inside \<and> se \<longrightarrow> sent) \<Longrightarrow>
     sends (fst (main_loop cfg se obs sent)) \<le> intervals inside obs"
proof (induction obs arbitrary: inside sent)
  case Nil
  then show ?case by (simp add: sends_def)
next
  case (Cons ob obs)
  obtain evs r where it: "main_iteration cfg se ob sent = (evs, r)"
    by (cases "main_iteration cfg se ob sent")
  show ?case
  proof (cases r)
    case (Inl e)
    have "sends evs \<le> (if dark_pass ob then (if inside then 0 else 1) else 0)"
      using it iteration_dark[of ob cfg se sent] iteration_not_dark[of ob cfg se sent] Cons.prems
      by (auto split: if_splits)
    then show ?thesis using it Inl by auto
  next
    case (Inr sent')
    note go = main_loop_go[of cfg se ob sent evs sent' obs]
    show ?thesis
    proof (cases "dark_pass ob")
      case True
      then have s: "sent' = (se \<or> sent)" and n: "sends evs = (if se \<and> \<not> sent then 1 else 0)"
        using iteration_dark[of ob cfg se sent] it Inr by auto
      have "sends (fst (main_loop cfg se obs sent')) \<le> intervals True obs"
        using Cons.IH[of True sent'] s by auto
      then show ?thesis using it Inr go True n Cons.prems by (auto simp: sends_append)
    next
      case False
      then have n: "sends evs = 0"
        using iteration_not_dark[of ob cfg se sent] it by simp
      have "sends (fst (main_loop cfg se obs sent')) \<le> intervals False obs"
        using Cons.IH[of False sent'] by auto
      then show ?thesis using it Inr go False n by (auto simp: sends_append)
    qed
  qed
qed

lemma intervals_inside_dark: "list_all dark_pass obs \<Longrightarrow> intervals True obs = 0"
  by (induction obs) auto

lemma intervals_all_dark: "list_all dark_pass obs \<Longrightarrow> intervals inside obs \<le> 1"
  by (cases obs) (auto simp: intervals_inside_dark)

lemma loop_dark_after_sent:
  "list_all dark_pass obs \<Longrightarrow> sends (fst (main_loop cfg se obs True)) = 0"
  using loop_sends_le_intervals[of True se True cfg obs] intervals_inside_dark[of obs] by simp

lemma loop_unavailable:
  "list_all position_unavailable obs \<Longrightarrow> snd (main_loop cfg se obs sent) = Inr sent"
proof (induction obs)
  case Nil
  then show ?case by simp
next
  case (Cons ob obs)
  then have "main_iteration cfg se ob sent
      = ([Call_get_iss_location, Print_waiting, Sleep_60], Inr sent)"
    by (simp add: iteration_unavailable)
  from main_loop_go[OF this] Cons show ?case by simp
qed

lemma loop_no_credentials:
  "sends (fst (main_loop cfg False obs sent)) = 0"
proof (induction obs arbitrary: sent)
  case Nil
  show ?case by (simp add: sends_def)
next
  case (Cons ob obs)
  obtain evs r where it: "main_iteration cfg False ob sent = (evs, r)"
    by (cases "main_iteration cfg False ob sent")
  then have n: "sends evs = 0"
    using iteration_no_credentials[of cfg ob sent] by simp
  show ?case
  proof (cases r)
    case (Inl e)
    with it n main_loop_stop[of cfg False ob sent evs e obs] show ?thesis by simp
  next
    case (Inr b)
    with it n main_loop_go[of cfg False ob sent evs b obs] Cons.IH[of b] show ?thesis
      by (simp add: sends_append)
  qed
qed

text \<open>
  Neither the configuration nor the flag changes what the loop monitors or how it
  ends.
\<close>

lemma loop_monitoring:
  "monitoring (fst (main_loop cfg se obs sent)) = monitoring (fst (main_loop cfg' se' obs sent'))
   \<and> ending (snd (main_loop cfg se obs sent)) = ending (snd (main_loop cfg' se' obs sent'))"
proof (induction obs arbitrary: sent sent')
  case Nil
  show ?case by (simp add: ending_def)
next
  case (Cons ob obs)
  obtain evs r where it: "main_iteration cfg se ob sent = (evs, r)"
    by (cases "main_iteration cfg se ob sent")
  obtain evs' r' where it': "main_iteration cfg' se' ob sent' = (evs', r')"
    by (cases "main_iteration cfg' se' ob sent'")
  have m: "monitoring evs = monitoring evs'"
    using iteration_monitoring[of cfg se ob sent cfg' se' sent'] it it' by simp
  have e: "ending r = ending r'"
    using iteration_ending[of cfg se ob sent cfg' se' sent'] it it' by simp
  show ?case
  proof (cases r)
    case (Inl x)
    then have "r' = Inl x" using e by (cases r') (auto simp: ending_def)
    with it it' m Inl main_loop_stop[of cfg se ob sent evs x obs]
      main_loop_stop[of cfg' se' ob sent' evs' x obs]
    show ?thesis by simp
  next
    case (Inr b)
    then obtain b' where r': "r' = Inr b'" using e by (cases r') (auto simp: ending_def)
    with it it' m Inr main_loop_go[of cfg se ob sent evs b obs]
      main_loop_go[of cfg' se' ob sent' evs' b' obs] Cons.IH[of b b']
    show ?thesis by (simp add: monitoring_append)
  qed
qed

lemma setup_no_credentials:
  "SENDER_EMAIL cfg = None \<or> RECEIVER_EMAIL cfg = None \<or> EMAIL_PASSWORD cfg = None \<Longrightarrow>
     main_setup cfg = ([Print_started, Print_monitoring, Print_no_credentials], False)"
  by (auto simp: main_setup_def falsy_def)

paragraph \<open>The fetchers\<close>

lemma and_then_Inl:
  "and_then r f = Inl e \<longleftrightarrow> r = Inl e \<or> (\<exists>v. r = Inr v \<and> f v = Inl e)"
  by (cases r) (auto simp: and_then_def)

lemma subscript_not_request: "subscript v k \<noteq> Inl RequestException"
  by (cases v) (auto split: option.splits)

lemma py_float_not_request: "py_float F v \<noteq> Inl RequestException"
  by (cases v) (auto split: option.splits)

text \<open>
  The \<^verbatim>\<open>try\<close> block of the position fetcher raises a \<^verbatim>\<open>RequestException\<close> in
  three cases only: the request raises one, the status is 4xx or 5xx, or decoding the
  body raises one.
\<close>

lemma try_request_exception_iff:
  "iss_location_try F answer = Inl RequestException \<longleftrightarrow>
     answer = Inl RequestException
     \<or> (\<exists>r. answer = Inr r \<and> 400 \<le> status_code r \<and> status_code r < 600)
     \<or> (\<exists>r. answer = Inr r \<and> json_result r = Inl RequestException)"
  (is "?l \<longleftrightarrow> ?r")
proof
  assume ?r
  then show ?l
    by (auto simp: iss_location_try_def and_then_def raise_for_status_def)
next
  assume ?l
  then show ?r
    unfolding iss_location_try_def
    by (auto simp: and_then_Inl raise_for_status_def subscript_not_request
        py_float_not_request split: if_splits)
qed

lemma get_iss_location_unavailable_iff:
  "get_iss_location F answer = Inr (None, None) \<longleftrightarrow>
     iss_location_try F answer = Inl RequestException"
  by (auto simp: get_iss_location_def split: sum.splits py_exc.splits prod.splits)

lemma missing_key_raises:
  "\<not> (400 \<le> status_code r \<and> status_code r < 600) \<Longrightarrow> json_result r = Inr (JObj items) \<Longrightarrow>
   map_of items ''iss_position'' = None \<Longrightarrow> get_iss_location F (Inr r) = Inl KeyError"
  by (simp add: get_iss_location_def iss_location_try_def and_then_def raise_for_status_def)

lemma sun_try_request_exception:
  "sunrise_sunset_try I answer = Inl RequestException \<Longrightarrow>
     get_sunrise_sunset_times I la lo answer = Inr (None, None)"
  by (simp add: get_sunrise_sunset_times_def)

subsection \<open>The night predicate\<close>

text \<open>
  Claim C1, as the code has it. For the window with sunrise 6 and sunset 18, hour 12 is
  day. For the window with sunrise 18 and sunset 6, hour 20 is night and hour 10 is
  night as well. (Hours 3 and 20 of the first window are not part of this statement.)
\<close>

theorem is_night_examples:
  "\<not> is_night (Some 6) (Some 18) 12
   \<and> is_night (Some 18) (Some 6) 20
   \<and> is_night (Some 18) (Some 6) 10"
  by simp

text \<open>
  Against claim C1 as it is written: with sunrise 6 and sunset 18 the predicate calls
  hours 3 and 20 day, and with sunrise 18 and sunset 6 it calls hour 10 night.
\<close>

theorem night_examples_refuted:
  "\<not> is_night (Some 6) (Some 18) 3
   \<and> \<not> is_night (Some 6) (Some 18) 20
   \<and> is_night (Some 18) (Some 6) 10"
  by simp

text \<open>
  Claim C2. With both hours available, for every hour \<open>h\<close> (those from 0 to 23
  among them): if sunset is before sunrise, it is night exactly when \<open>h\<close> is at or
  after sunset or before sunrise; otherwise exactly when \<open>h\<close> is at or after sunset
  and before sunrise.
\<close>

theorem is_night_window:
  "is_night (Some sunrise) (Some sunset) h =
     (if sunset < sunrise then h \<ge> sunset \<or> h < sunrise
      else h \<ge> sunset \<and> h < sunrise)"
  by simp

text \<open>
  Claim C5. When the sunrise or the sunset hour is unavailable the predicate answers
  night, at every hour. The daylight fetcher returns \<^verbatim>\<open>(None, None)\<close> when its
  request fails with a \<^verbatim>\<open>RequestException\<close>, and an iteration that reads such a
  result counts as night.
\<close>

theorem night_when_daylight_unavailable:
  "(sunrise = None \<or> sunset = None \<longrightarrow> is_night sunrise sunset h)
   \<and> (sunrise_sunset_try I answer = Inl RequestException \<longrightarrow>
        get_sunrise_sunset_times I la lo answer = Inr (None, None))
   \<and> (sun_times ob = Inr (sr, ss) \<and> (sr = None \<or> ss = None) \<longrightarrow> night ob)"
  using is_night_None sun_try_request_exception by (auto simp: night_def)

theorem night_when_daylight_unavailable_witness:
  "is_night None (Some 13) 9
   \<and> sunrise_sunset_try rejecting (sun_answer connection_error) = Inl RequestException
   \<and> get_sunrise_sunset_times rejecting MY_LAT MY_LONG (sun_answer connection_error)
       = Inr (None, None)
   \<and> sun_times (observe rejecting rejecting connection_error) = Inr (None, None)
   \<and> night (observe rejecting rejecting connection_error)"
proof -
  have h1: "(None :: int option) = None \<or> Some (13::int) = None"
    by simp
  have h2: "sunrise_sunset_try rejecting (sun_answer connection_error) = Inl RequestException"
    by (simp add: sunrise_sunset_try_def and_then_def connection_error_def)
  note t = night_when_daylight_unavailable[where sunrise = None and sunset = "Some 13"
      and h = 9 and I = rejecting and answer = "sun_answer connection_error"
      and la = MY_LAT and lo = MY_LONG
      and ob = "observe rejecting rejecting connection_error" and sr = None and ss = None]
  have g: "get_sunrise_sunset_times rejecting MY_LAT MY_LONG (sun_answer connection_error)
      = Inr (None, None)"
    using t h2 by blast
  then have h3: "sun_times (observe rejecting rejecting connection_error) = Inr (None, None)"
    by (simp add: observe_def)
  show ?thesis using t h1 h2 h3 g by blast
qed

text \<open>
  Claim C9. For a window whose sunrise is not after its sunset, both hours available,
  no hour is night.
\<close>

theorem unwrapped_window_never_night:
  "sunrise \<le> sunset \<Longrightarrow> \<not> is_night (Some sunrise) (Some sunset) h"
  by simp

theorem unwrapped_window_never_night_witness:
  "(1::int) \<le> 13 \<and> \<not> is_night (Some 1) (Some 13) 20"
proof -
  have h: "(1::int) \<le> 13" by simp
  from unwrapped_window_never_night[OF h] h show ?thesis by blast
qed

subsection \<open>The overhead predicate\<close>

text \<open>
  Claim C3, as the code has it. The predicate holds exactly when both differences, as
  the program computes them in double precision, are below 5 in absolute value; that
  is, exactly when both exact differences are below \<open>5 - 2^-51\<close>. So it holds only
  where both exact differences are below 5, and it does not hold when one of them
  equals 5.
\<close>

theorem is_iss_overhead_box:
  "is_iss_overhead my_lat my_long iss_lat iss_long =
     (\<bar>double_round (my_lat - iss_lat)\<bar> < 5 \<and> \<bar>double_round (my_long - iss_long)\<bar> < 5)
   \<and> is_iss_overhead my_lat my_long iss_lat iss_long =
     (\<bar>my_lat - iss_lat\<bar> < 5 - 1 / 2 ^ 51 \<and> \<bar>my_long - iss_long\<bar> < 5 - 1 / 2 ^ 51)
   \<and> (is_iss_overhead my_lat my_long iss_lat iss_long \<longrightarrow>
        \<bar>my_lat - iss_lat\<bar> < 5 \<and> \<bar>my_long - iss_long\<bar> < 5)
   \<and> (\<bar>my_lat - iss_lat\<bar> = 5 \<or> \<bar>my_long - iss_long\<bar> = 5
        \<longrightarrow> \<not> is_iss_overhead my_lat my_long iss_lat iss_long)"
proof -
  have a: "is_iss_overhead my_lat my_long iss_lat iss_long =
     (\<bar>double_round (my_lat - iss_lat)\<bar> < 5 \<and> \<bar>double_round (my_long - iss_long)\<bar> < 5)"
    by (simp add: is_iss_overhead_def)
  have b: "is_iss_overhead my_lat my_long iss_lat iss_long =
     (\<bar>my_lat - iss_lat\<bar> < 5 - 1 / 2 ^ 51 \<and> \<bar>my_long - iss_long\<bar> < 5 - 1 / 2 ^ 51)"
    by (rule is_iss_overhead_iff)
  have c: "\<bar>my_lat - iss_lat\<bar> < 5 \<and> \<bar>my_long - iss_long\<bar> < 5"
    if "is_iss_overhead my_lat my_long iss_lat iss_long"
    using that a double_round_abs_less_5 by blast
  have d: "\<not> is_iss_overhead my_lat my_long iss_lat iss_long"
    if "\<bar>my_lat - iss_lat\<bar> = 5 \<or> \<bar>my_long - iss_long\<bar> = 5"
    using that c by auto
  show ?thesis using a b c d by blast
qed

theorem is_iss_overhead_box_witness:
  "is_iss_overhead 10 20 6 23
   \<and> \<bar>10 - 6 :: real\<bar> < 5 \<and> \<bar>20 - 23 :: real\<bar> < 5
   \<and> \<bar>10 - 5 :: real\<bar> = 5 \<and> \<not> is_iss_overhead 10 20 5 23
   \<and> \<bar>20 - 25 :: real\<bar> = 5 \<and> \<not> is_iss_overhead 10 20 6 25"
proof -
  have h1: "\<bar>10 - 5 :: real\<bar> = 5 \<or> \<bar>20 - 23 :: real\<bar> = 5"
    by simp
  have h2: "\<bar>10 - 6 :: real\<bar> = 5 \<or> \<bar>20 - 25 :: real\<bar> = 5"
    by simp
  have i: "\<bar>10 - 6 :: real\<bar> < 5 - 1 / 2 ^ 51 \<and> \<bar>20 - 23 :: real\<bar> < 5 - 1 / 2 ^ 51"
    by simp
  note inside = is_iss_overhead_box[where my_lat = 10 and my_long = 20
      and iss_lat = 6 and iss_long = 23]
  note lat_edge = is_iss_overhead_box[where my_lat = 10 and my_long = 20
      and iss_lat = 5 and iss_long = 23]
  note long_edge = is_iss_overhead_box[where my_lat = 10 and my_long = 20
      and iss_lat = 6 and iss_long = 25]
  have a: "is_iss_overhead 10 20 6 23"
    using inside i by blast
  then have a': "\<bar>10 - 6 :: real\<bar> < 5 \<and> \<bar>20 - 23 :: real\<bar> < 5"
    using inside by blast
  have b: "\<not> is_iss_overhead 10 20 5 23"
    using lat_edge h1 by blast
  have c: "\<not> is_iss_overhead 10 20 6 25"
    using long_edge h2 by blast
  show ?thesis using a a' b c by simp
qed

text \<open>
  Against claim C3 as it is written: the observer at latitude \<open>5.0\<close> and the station
  at latitude \<open>2^-70\<close>, both at longitude \<open>0.0\<close>. All four are doubles, both exact
  differences are below 5, and the predicate does not hold: the first difference is
  computed as \<open>5.0\<close>.
\<close>

theorem overhead_rounding_edge:
  "double_round 5 = 5 \<and> double_round (1 / 2 ^ 70) = 1 / 2 ^ 70 \<and> double_round 0 = 0
   \<and> \<bar>5 - 1 / 2 ^ 70 :: real\<bar> < 5 \<and> \<bar>0 - 0 :: real\<bar> < 5
   \<and> double_round (5 - 1 / 2 ^ 70) = 5
   \<and> \<not> is_iss_overhead 5 0 (1 / 2 ^ 70) 0"
proof -
  have a: "double_round 5 = 5" by code_simp
  have b: "double_round (1 / 2 ^ 70) = 1 / 2 ^ 70" by code_simp
  have c: "double_round 0 = 0" by (simp add: double_round_def)
  have d: "\<bar>5 - 1 / 2 ^ 70 :: real\<bar> < 5" by simp
  have e: "double_round (5 - 1 / 2 ^ 70) = 5" by code_simp
  have f: "\<not> is_iss_overhead 5 0 (1 / 2 ^ 70) 0"
    unfolding is_iss_overhead_def e by simp
  show ?thesis using a b c d e f by simp
qed

subsection \<open>The flag and the notifications\<close>

text \<open>
  Claim C4. From the flag \<open>False\<close> and with credentials, the iterations overhead and
  night, overhead and night, overhead and day, overhead and night call the notifier
  exactly twice. In general: a run of iterations that are all overhead and night
  calls it at most once, whatever the flag at its start; a whole run calls it at
  most once per continuous overhead-and-night interval; and an iteration that finds
  the station not overhead, or overhead by day, leaves the flag \<open>False\<close>.
\<close>

theorem one_send_per_interval:
  "sends (fst (main credentials
      [overhead_night, overhead_night, overhead_day, overhead_night])) = 2
   \<and> (list_all dark_pass obs \<longrightarrow> sends (fst (main_loop cfg se obs sent)) \<le> 1)
   \<and> sends (fst (main_loop cfg se obs' sent)) \<le> intervals False obs'
   \<and> (position_available ob \<and> \<not> overhead ob \<longrightarrow>
        snd (main_iteration cfg se ob sent) = Inr False)
   \<and> (overhead ob' \<and> day ob' \<longrightarrow> snd (main_iteration cfg se ob' sent) = Inr False)"
proof -
  have a: "sends (fst (main credentials
      [overhead_night, overhead_night, overhead_day, overhead_night])) = 2"
    by (simp add: run_defs example_defs)
  have b: "sends (fst (main_loop cfg se xs sent)) \<le> intervals False xs" for xs
    by (rule loop_sends_le_intervals) simp
  have c: "sends (fst (main_loop cfg se obs sent)) \<le> 1" if "list_all dark_pass obs"
    using b[of obs] intervals_all_dark[OF that, of False] by simp
  show ?thesis
    using a b c iteration_not_overhead iteration_day by blast
qed

theorem one_send_per_interval_witness:
  "list_all dark_pass [overhead_night, failing_send]
   \<and> sends (fst (main_loop credentials True [overhead_night, failing_send] False)) \<le> 1
   \<and> sends (fst (main_loop credentials True
        [overhead_night, overhead_day, overhead_night] False))
       \<le> intervals False [overhead_night, overhead_day, overhead_night]
   \<and> intervals False [overhead_night, overhead_day, overhead_night] = 2
   \<and> position_available elsewhere \<and> \<not> overhead elsewhere
   \<and> snd (main_iteration credentials True elsewhere True) = Inr False
   \<and> overhead overhead_day \<and> day overhead_day
   \<and> snd (main_iteration credentials True overhead_day True) = Inr False"
proof -
  have dark: "dark_pass overhead_night" "dark_pass failing_send" "\<not> dark_pass overhead_day"
    by (simp_all add: obs_defs is_iss_overhead_iff example_defs)
  have h1: "list_all dark_pass [overhead_night, failing_send]"
    using dark by simp
  have h2: "position_available elsewhere \<and> \<not> overhead elsewhere"
    by (simp add: obs_defs is_iss_overhead_iff example_defs)
  have h3: "overhead overhead_day \<and> day overhead_day"
    by (simp add: obs_defs is_iss_overhead_iff example_defs)
  have n: "intervals False [overhead_night, overhead_day, overhead_night] = 2"
    using dark by simp
  note t1 = one_send_per_interval[where obs = "[overhead_night, failing_send]"
      and cfg = credentials and se = True and sent = False
      and obs' = "[overhead_night, overhead_day, overhead_night]"]
  note t2 = one_send_per_interval[where ob = elsewhere and ob' = overhead_day
      and cfg = credentials and se = True and sent = True]
  show ?thesis using t1 t2 h1 h2 h3 n by blast
qed

text \<open>
  Claim C6. When one of the three configuration variables is absent,
  \<^verbatim>\<open>send_emails\<close> is false, no iteration calls the notifier whatever it observes,
  and a whole run calls it zero times. Monitoring goes on, and the theorem says what
  it consists of. Every iteration calls the position fetcher. Without a position it
  prints the waiting line and sleeps. With one it prints the position and, when the
  station is not overhead, says so and resets the flag; when it is overhead, it says
  so and calls the daylight fetcher, then prints the two lines for the dark or the
  line for daytime (resetting the flag by day), and in each case the waiting line
  and the sleep follow. A run over the four kinds of iteration is given in full. The
  fetcher calls, status lines and sleeps of any run, and the way it ends, are those
  of a run with credentials.
\<close>

theorem no_credentials_no_send:
  assumes "SENDER_EMAIL cfg = None \<or> RECEIVER_EMAIL cfg = None \<or> EMAIL_PASSWORD cfg = None"
  shows "snd (main_setup cfg) = False
    \<and> sends (fst (main_iteration cfg (snd (main_setup cfg)) ob sent)) = 0
    \<and> sends (fst (main cfg obs)) = 0
    \<and> Call_get_iss_location \<in> set (fst (main_iteration cfg (snd (main_setup cfg)) ob sent))
    \<and> monitoring (fst (main_iteration cfg (snd (main_setup cfg)) ob sent))
        = monitoring (fst (main_iteration cfg' True ob sent'))
    \<and> monitoring (fst (main cfg obs))
        = [Print_started, Print_monitoring, Print_no_credentials]
          @ monitoring (fst (main_loop cfg' True obs sent'))
    \<and> ending (snd (main cfg obs)) = ending (snd (main_loop cfg' True obs sent'))
    \<and> (position_unavailable obu \<longrightarrow>
         main_iteration cfg (snd (main_setup cfg)) obu sent
           = ([Call_get_iss_location, Print_waiting, Sleep_60], Inr sent))
    \<and> (iss_location obf = Inr (Some laf, Some lof)
         \<and> \<not> is_iss_overhead MY_LAT MY_LONG laf lof \<longrightarrow>
         main_iteration cfg (snd (main_setup cfg)) obf sent
           = ([Call_get_iss_location, Print_location laf lof, Print_not_overhead,
               Assign_sent False, Print_waiting, Sleep_60],
              Inr False))
    \<and> (iss_location obn = Inr (Some lan, Some lon)
         \<and> is_iss_overhead MY_LAT MY_LONG lan lon \<and> night obn \<longrightarrow>
         main_iteration cfg (snd (main_setup cfg)) obn sent
           = ([Call_get_iss_location, Print_location lan lon, Print_in_range,
               Call_get_sunrise_sunset_times, Print_dark, Print_visible,
               Print_waiting, Sleep_60],
              Inr sent))
    \<and> (iss_location obd = Inr (Some lad, Some lod)
         \<and> is_iss_overhead MY_LAT MY_LONG lad lod \<and> day obd \<longrightarrow>
         main_iteration cfg (snd (main_setup cfg)) obd sent
           = ([Call_get_iss_location, Print_location lad lod, Print_in_range,
               Call_get_sunrise_sunset_times, Print_daytime, Assign_sent False,
               Print_waiting, Sleep_60],
              Inr False))
    \<and> main no_password [overhead_night, overhead_day, elsewhere, no_position]
        = ([Print_started, Print_monitoring, Print_no_credentials,
            Call_get_iss_location, Print_location 27 77.5, Print_in_range,
            Call_get_sunrise_sunset_times, Print_dark, Print_visible,
            Print_waiting, Sleep_60,
            Call_get_iss_location, Print_location 27 77.5, Print_in_range,
            Call_get_sunrise_sunset_times, Print_daytime, Assign_sent False,
            Print_waiting, Sleep_60,
            Call_get_iss_location, Print_location (- 30) (- 20), Print_not_overhead,
            Assign_sent False, Print_waiting, Sleep_60,
            Call_get_iss_location, Print_waiting, Sleep_60],
           Inr False)"
proof -
  have s: "main_setup cfg = ([Print_started, Print_monitoring, Print_no_credentials], False)"
    using assms by (rule setup_no_credentials)
  have m: "main cfg obs =
      ([Print_started, Print_monitoring, Print_no_credentials]
         @ fst (main_loop cfg False obs False),
       snd (main_loop cfg False obs False))"
    by (simp add: main_def s split: prod.splits)
  have 1: "sends (fst (main cfg obs)) = 0"
    using loop_no_credentials[of cfg obs False]
    by (simp add: m sends_append) (simp add: sends_def)
  have 2: "monitoring (fst (main cfg obs))
        = [Print_started, Print_monitoring, Print_no_credentials]
          @ monitoring (fst (main_loop cfg' True obs sent'))"
    using loop_monitoring[of cfg False obs False cfg' True sent']
    by (simp add: m monitoring_append) (simp add: monitoring_def)
  have 3: "ending (snd (main cfg obs)) = ending (snd (main_loop cfg' True obs sent'))"
    using loop_monitoring[of cfg False obs False cfg' True sent'] by (simp add: m)
  have 4: "sends (fst (main_iteration cfg False ob sent)) = 0"
    by (rule iteration_no_credentials)
  have 5: "Call_get_iss_location \<in> set (fst (main_iteration cfg False ob sent))"
    by (rule iteration_calls_fetcher)
  have 6: "monitoring (fst (main_iteration cfg False ob sent))
        = monitoring (fst (main_iteration cfg' True ob sent'))"
    by (rule iteration_monitoring)
  have 7: "position_unavailable obu \<longrightarrow>
         main_iteration cfg False obu sent
           = ([Call_get_iss_location, Print_waiting, Sleep_60], Inr sent)"
    using iteration_unavailable by blast
  have 8: "iss_location obf = Inr (Some laf, Some lof)
         \<and> \<not> is_iss_overhead MY_LAT MY_LONG laf lof \<longrightarrow>
         main_iteration cfg False obf sent
           = ([Call_get_iss_location, Print_location laf lof, Print_not_overhead,
               Assign_sent False, Print_waiting, Sleep_60],
              Inr False)"
    using iteration_trace_not_overhead by blast
  have 9: "iss_location obn = Inr (Some lan, Some lon)
         \<and> is_iss_overhead MY_LAT MY_LONG lan lon \<and> night obn \<longrightarrow>
         main_iteration cfg False obn sent
           = ([Call_get_iss_location, Print_location lan lon, Print_in_range,
               Call_get_sunrise_sunset_times, Print_dark, Print_visible,
               Print_waiting, Sleep_60],
              Inr sent)"
    using iteration_trace_night_no_send by blast
  have 10: "iss_location obd = Inr (Some lad, Some lod)
         \<and> is_iss_overhead MY_LAT MY_LONG lad lod \<and> day obd \<longrightarrow>
         main_iteration cfg False obd sent
           = ([Call_get_iss_location, Print_location lad lod, Print_in_range,
               Call_get_sunrise_sunset_times, Print_daytime, Assign_sent False,
               Print_waiting, Sleep_60],
              Inr False)"
    using iteration_trace_day by blast
  have 11: "main no_password [overhead_night, overhead_day, elsewhere, no_position]
        = ([Print_started, Print_monitoring, Print_no_credentials,
            Call_get_iss_location, Print_location 27 77.5, Print_in_range,
            Call_get_sunrise_sunset_times, Print_dark, Print_visible,
            Print_waiting, Sleep_60,
            Call_get_iss_location, Print_location 27 77.5, Print_in_range,
            Call_get_sunrise_sunset_times, Print_daytime, Assign_sent False,
            Print_waiting, Sleep_60,
            Call_get_iss_location, Print_location (- 30) (- 20), Print_not_overhead,
            Assign_sent False, Print_waiting, Sleep_60,
            Call_get_iss_location, Print_waiting, Sleep_60],
           Inr False)"
    by (simp add: run_defs example_defs)
  have e: "snd (main_setup cfg) = False" by (simp add: s)
  show ?thesis
    unfolding e by (intro conjI; fact refl 1 2 3 4 5 6 7 8 9 10 11)
qed

theorem no_credentials_no_send_witness:
  "EMAIL_PASSWORD no_password = None
   \<and> sends (fst (main no_password
        [overhead_night, overhead_night, overhead_day, overhead_night])) = 0
   \<and> monitoring (fst (main no_password
        [overhead_night, overhead_night, overhead_day, overhead_night]))
      = [Print_started, Print_monitoring, Print_no_credentials]
        @ monitoring (fst (main_loop credentials True
             [overhead_night, overhead_night, overhead_day, overhead_night] False))
   \<and> ending (snd (main no_password
        [overhead_night, overhead_night, overhead_day, overhead_night])) = None
   \<and> position_unavailable no_position
   \<and> main_iteration no_password False no_position True
       = ([Call_get_iss_location, Print_waiting, Sleep_60], Inr True)
   \<and> iss_location elsewhere = Inr (Some (- 30), Some (- 20))
   \<and> \<not> is_iss_overhead MY_LAT MY_LONG (- 30) (- 20)
   \<and> main_iteration no_password False elsewhere True
       = ([Call_get_iss_location, Print_location (- 30) (- 20), Print_not_overhead,
           Assign_sent False, Print_waiting, Sleep_60],
          Inr False)
   \<and> iss_location overhead_night = Inr (Some 27, Some 77.5)
   \<and> is_iss_overhead MY_LAT MY_LONG 27 77.5 \<and> night overhead_night
   \<and> main_iteration no_password False overhead_night True
       = ([Call_get_iss_location, Print_location 27 77.5, Print_in_range,
           Call_get_sunrise_sunset_times, Print_dark, Print_visible,
           Print_waiting, Sleep_60],
          Inr True)
   \<and> iss_location overhead_day = Inr (Some 27, Some 77.5) \<and> day overhead_day
   \<and> main_iteration no_password False overhead_day True
       = ([Call_get_iss_location, Print_location 27 77.5, Print_in_range,
           Call_get_sunrise_sunset_times, Print_daytime, Assign_sent False,
           Print_waiting, Sleep_60],
          Inr False)"
proof -
  have h: "SENDER_EMAIL no_password = None \<or> RECEIVER_EMAIL no_password = None
      \<or> EMAIL_PASSWORD no_password = None"
    by (simp add: example_defs)
  have e: "ending (snd (main_loop credentials True
             [overhead_night, overhead_night, overhead_day, overhead_night] False)) = None"
    by (simp add: run_defs example_defs)
  have h1: "position_unavailable no_position"
    by (simp add: obs_defs example_defs)
  have h2: "iss_location elsewhere = Inr (Some (- 30), Some (- 20))
      \<and> \<not> is_iss_overhead MY_LAT MY_LONG (- 30) (- 20)"
    by (simp add: is_iss_overhead_iff example_defs)
  have h3: "iss_location overhead_night = Inr (Some 27, Some 77.5)
      \<and> is_iss_overhead MY_LAT MY_LONG 27 77.5 \<and> night overhead_night"
    by (simp add: obs_defs is_iss_overhead_iff example_defs)
  have h4: "iss_location overhead_day = Inr (Some 27, Some 77.5)
      \<and> is_iss_overhead MY_LAT MY_LONG 27 77.5 \<and> day overhead_day"
    by (simp add: obs_defs is_iss_overhead_iff example_defs)
  have f: "snd (main_setup no_password) = False"
    by (simp add: main_setup_def falsy_def example_defs)
  note t = no_credentials_no_send[OF h,
      where obs = "[overhead_night, overhead_night, overhead_day, overhead_night]"
      and cfg' = credentials and sent' = False and sent = True
      and obu = no_position and obf = elsewhere and laf = "- 30" and lof = "- 20"
      and obn = overhead_night and lan = 27 and lon = "77.5"
      and obd = overhead_day and lad = 27 and lod = "77.5", unfolded f]
  have p: "EMAIL_PASSWORD no_password = None"
    by (simp add: example_defs)
  show ?thesis using t e h1 h2 h3 h4 p by simp
qed

text \<open>
  Claim C10. An iteration whose position fetch returned without a position only
  calls the fetcher, prints the waiting line and sleeps: the flag keeps its value, and
  keeps it through any run of such iterations. An iteration that finds the station
  not overhead, or overhead by day, sets the flag to \<open>False\<close> instead.
\<close>

theorem unavailable_position_keeps_flag:
  "(position_unavailable ob \<longrightarrow>
      main_iteration cfg se ob sent
        = ([Call_get_iss_location, Print_waiting, Sleep_60], Inr sent))
   \<and> (list_all position_unavailable obs \<longrightarrow> snd (main_loop cfg se obs sent) = Inr sent)
   \<and> (position_available ob' \<and> \<not> overhead ob' \<longrightarrow>
        snd (main_iteration cfg se ob' sent) = Inr False)
   \<and> (overhead ob'' \<and> day ob'' \<longrightarrow> snd (main_iteration cfg se ob'' sent) = Inr False)"
  using iteration_unavailable loop_unavailable iteration_not_overhead iteration_day
  by blast

theorem unavailable_position_keeps_flag_witness:
  "position_unavailable no_position
   \<and> snd (main_iteration credentials True no_position True) = Inr True
   \<and> list_all position_unavailable [no_position, no_position, no_position]
   \<and> snd (main_loop credentials True [no_position, no_position, no_position] True) = Inr True
   \<and> position_available elsewhere \<and> \<not> overhead elsewhere
   \<and> snd (main_iteration credentials True elsewhere True) = Inr False
   \<and> overhead overhead_day \<and> day overhead_day
   \<and> snd (main_iteration credentials True overhead_day True) = Inr False"
proof -
  have h1: "position_unavailable no_position"
    by (simp add: obs_defs example_defs)
  then have h2: "list_all position_unavailable [no_position, no_position, no_position]"
    by simp
  have h3: "position_available elsewhere \<and> \<not> overhead elsewhere"
    by (simp add: obs_defs is_iss_overhead_iff example_defs)
  have h4: "overhead overhead_day \<and> day overhead_day"
    by (simp add: obs_defs is_iss_overhead_iff example_defs)
  note t = unavailable_position_keeps_flag[where ob = no_position
      and obs = "[no_position, no_position, no_position]"
      and ob' = elsewhere and ob'' = overhead_day
      and cfg = credentials and se = True and sent = True]
  have "snd (main_iteration credentials True no_position True) = Inr True"
    using t h1 by simp
  then show ?thesis using t h1 h2 h3 h4 by blast
qed

text \<open>
  Claim C8, as the code has it. A failing SMTP session does not affect the flag. In
  an iteration that is overhead and night, starts from the flag \<open>False\<close> and whose
  session raises, the notifier is called, the failure is printed, and only then is
  the flag assigned \<open>True\<close>; the iteration ends normally, and the rest of the
  interval calls the notifier no more. In every iteration the outcome is the same
  whether or not the session raises, no call is made while the flag is \<open>True\<close>,
  and no assignment of \<open>True\<close> comes before the call of the notifier.
\<close>

theorem send_failure_keeps_flag:
  "(iss_location ob = Inr (Some la, Some lo) \<and> is_iss_overhead MY_LAT MY_LONG la lo
      \<and> night ob \<and> smtp_raises ob \<longrightarrow>
      main_iteration cfg True ob False =
        ([Call_get_iss_location, Print_location la lo, Print_in_range,
          Call_get_sunrise_sunset_times, Print_dark, Print_visible,
          Call_send (SENDER_EMAIL cfg) (RECEIVER_EMAIL cfg) (EMAIL_PASSWORD cfg) la lo,
          Print_email_failed, Assign_sent True, Print_waiting, Sleep_60],
         Inr True)
      \<and> (list_all dark_pass obs \<longrightarrow>
           sends (fst (main_loop cfg True (ob # obs) False)) = 1))
   \<and> snd (main_iteration cfg se (ob'\<lparr>smtp_raises := b\<rparr>) sent)
       = snd (main_iteration cfg se ob' sent)
   \<and> sends (fst (main_iteration cfg se ob' True)) = 0
   \<and> Assign_sent True \<notin> set (before_send (fst (main_iteration cfg se ob' sent)))"
proof -
  have a: "main_iteration cfg True ob False =
        ([Call_get_iss_location, Print_location la lo, Print_in_range,
          Call_get_sunrise_sunset_times, Print_dark, Print_visible,
          Call_send (SENDER_EMAIL cfg) (RECEIVER_EMAIL cfg) (EMAIL_PASSWORD cfg) la lo,
          Print_email_failed, Assign_sent True, Print_waiting, Sleep_60],
         Inr True)
      \<and> (list_all dark_pass obs \<longrightarrow>
           sends (fst (main_loop cfg True (ob # obs) False)) = 1)"
    if h: "iss_location ob = Inr (Some la, Some lo) \<and> is_iss_overhead MY_LAT MY_LONG la lo
      \<and> night ob \<and> smtp_raises ob"
  proof -
    have i: "main_iteration cfg True ob False =
        ([Call_get_iss_location, Print_location la lo, Print_in_range,
          Call_get_sunrise_sunset_times, Print_dark, Print_visible,
          Call_send (SENDER_EMAIL cfg) (RECEIVER_EMAIL cfg) (EMAIL_PASSWORD cfg) la lo,
          Print_email_failed, Assign_sent True, Print_waiting, Sleep_60],
         Inr True)"
      using h iteration_send_failure by blast
    have "sends (fst (main_loop cfg True (ob # obs) False)) = 1" if "list_all dark_pass obs"
      using main_loop_go[OF i, of obs] loop_dark_after_sent[OF that, of cfg True]
      by (simp add: sends_append) (simp add: sends_def)
    with i show ?thesis by blast
  qed
  show ?thesis
    using a iteration_smtp_independent iteration_sent_no_send iteration_assign_after_send
    by blast
qed

theorem send_failure_keeps_flag_witness:
  "iss_location failing_send = Inr (Some 27, Some 77.5)
   \<and> is_iss_overhead MY_LAT MY_LONG 27 77.5
   \<and> night failing_send \<and> smtp_raises failing_send
   \<and> list_all dark_pass [overhead_night, failing_send]
   \<and> snd (main_iteration credentials True failing_send False) = Inr True
   \<and> sends (fst (main_loop credentials True
        [failing_send, overhead_night, failing_send] False)) = 1"
proof -
  have h1: "iss_location failing_send = Inr (Some 27, Some 77.5)
      \<and> is_iss_overhead MY_LAT MY_LONG 27 77.5 \<and> night failing_send \<and> smtp_raises failing_send"
    by (simp add: obs_defs is_iss_overhead_iff example_defs)
  have h2: "list_all dark_pass [overhead_night, failing_send]"
    by (simp add: obs_defs is_iss_overhead_iff example_defs)
  note t = send_failure_keeps_flag[where ob = failing_send and la = 27 and lo = "77.5"
      and cfg = credentials and obs = "[overhead_night, failing_send]"]
  have "main_iteration credentials True failing_send False =
        ([Call_get_iss_location, Print_location 27 77.5, Print_in_range,
          Call_get_sunrise_sunset_times, Print_dark, Print_visible,
          Call_send (SENDER_EMAIL credentials) (RECEIVER_EMAIL credentials)
            (EMAIL_PASSWORD credentials) 27 77.5,
          Print_email_failed, Assign_sent True, Print_waiting, Sleep_60],
         Inr True)"
    using t h1 by blast
  then have g: "snd (main_iteration credentials True failing_send False) = Inr True"
    by simp
  show ?thesis using t h1 h2 g by blast
qed

text \<open>
  Against claim C8 as it is written ("the flag is set before the send attempt"): in
  the iteration whose session raises, everything before the call of the notifier is
  fetching and printing; the assignment of the flag follows the call and the report
  of its failure.
\<close>

theorem flag_assigned_after_send:
  "fst (main_iteration credentials True failing_send False) =
     [Call_get_iss_location, Print_location 27 77.5, Print_in_range,
      Call_get_sunrise_sunset_times, Print_dark, Print_visible,
      Call_send (SENDER_EMAIL credentials) (RECEIVER_EMAIL credentials)
        (EMAIL_PASSWORD credentials) 27 77.5,
      Print_email_failed, Assign_sent True, Print_waiting, Sleep_60]
   \<and> before_send (fst (main_iteration credentials True failing_send False)) =
     [Call_get_iss_location, Print_location 27 77.5, Print_in_range,
      Call_get_sunrise_sunset_times, Print_dark, Print_visible]
   \<and> Assign_sent True
       \<notin> set (before_send (fst (main_iteration credentials True failing_send False)))"
  by (simp add: run_defs example_defs)

subsection \<open>The position fetcher and its caller\<close>

text \<open>
  Claim C7, as the code has it. The position fetcher returns \<^verbatim>\<open>(None, None)\<close>
  exactly when its request fails with a \<^verbatim>\<open>RequestException\<close>: the request
  raises one, the status is 4xx or 5xx, or decoding the body raises one. The
  iteration that gets this result skips the overhead check and the loop goes on with
  the next iteration. A response that decodes to an object without
  \<^verbatim>\<open>iss_position\<close> is not such a failure: the fetcher raises
  \<^verbatim>\<open>KeyError\<close>, which ends the loop.
\<close>

theorem request_failure_skips_iteration:
  "(get_iss_location F answer = Inr (None, None) \<longleftrightarrow>
      answer = Inl RequestException
      \<or> (\<exists>r. answer = Inr r \<and> 400 \<le> status_code r \<and> status_code r < 600)
      \<or> (\<exists>r. answer = Inr r \<and> json_result r = Inl RequestException))
   \<and> (get_iss_location F (iss_answer w) = Inr (None, None) \<longrightarrow>
        main_iteration cfg se (observe F I w) sent
          = ([Call_get_iss_location, Print_waiting, Sleep_60], Inr sent)
        \<and> main_loop cfg se (observe F I w # obs) sent
          = ([Call_get_iss_location, Print_waiting, Sleep_60]
               @ fst (main_loop cfg se obs sent),
             snd (main_loop cfg se obs sent)))
   \<and> (iss_answer w' = Inr r' \<and> \<not> (400 \<le> status_code r' \<and> status_code r' < 600)
        \<and> json_result r' = Inr (JObj items) \<and> map_of items ''iss_position'' = None \<longrightarrow>
        get_iss_location F (iss_answer w') = Inl KeyError
        \<and> main_loop cfg se (observe F I w' # obs) sent
            = ([Call_get_iss_location], Inl KeyError))"
proof -
  have a: "get_iss_location F answer = Inr (None, None) \<longleftrightarrow>
      answer = Inl RequestException
      \<or> (\<exists>r. answer = Inr r \<and> 400 \<le> status_code r \<and> status_code r < 600)
      \<or> (\<exists>r. answer = Inr r \<and> json_result r = Inl RequestException)"
    by (simp only: get_iss_location_unavailable_iff try_request_exception_iff)
  have b: "main_iteration cfg se (observe F I w) sent
          = ([Call_get_iss_location, Print_waiting, Sleep_60], Inr sent)
        \<and> main_loop cfg se (observe F I w # obs) sent
          = ([Call_get_iss_location, Print_waiting, Sleep_60]
               @ fst (main_loop cfg se obs sent),
             snd (main_loop cfg se obs sent))"
    if u: "get_iss_location F (iss_answer w) = Inr (None, None)"
  proof -
    have "position_unavailable (observe F I w)"
      using u by (simp add: position_unavailable_def observe_def)
    then have i: "main_iteration cfg se (observe F I w) sent
          = ([Call_get_iss_location, Print_waiting, Sleep_60], Inr sent)"
      by (rule iteration_unavailable)
    from i main_loop_go[OF i] show ?thesis by simp
  qed
  have c: "get_iss_location F (iss_answer w') = Inl KeyError
        \<and> main_loop cfg se (observe F I w' # obs) sent
            = ([Call_get_iss_location], Inl KeyError)"
    if m: "iss_answer w' = Inr r' \<and> \<not> (400 \<le> status_code r' \<and> status_code r' < 600)
        \<and> json_result r' = Inr (JObj items) \<and> map_of items ''iss_position'' = None"
  proof -
    have k: "get_iss_location F (iss_answer w') = Inl KeyError"
      using m missing_key_raises[of r' items F] by simp
    then have "iss_location (observe F I w') = Inl KeyError"
      by (simp add: observe_def)
    then have "main_iteration cfg se (observe F I w') sent
        = ([Call_get_iss_location], Inl KeyError)"
      by (rule iteration_raises)
    from k main_loop_stop[OF this] show ?thesis by simp
  qed
  show ?thesis using a b c by blast
qed

theorem request_failure_skips_iteration_witness:
  "iss_answer connection_error = Inl RequestException
   \<and> get_iss_location rejecting (iss_answer connection_error) = Inr (None, None)
   \<and> main_loop credentials True
        [observe rejecting rejecting connection_error, overhead_night] True
       = ([Call_get_iss_location, Print_waiting, Sleep_60]
            @ fst (main_loop credentials True [overhead_night] True),
          snd (main_loop credentials True [overhead_night] True))
   \<and> get_iss_location rejecting (iss_answer missing_position) = Inl KeyError
   \<and> main_loop credentials True
        [observe rejecting rejecting missing_position, overhead_night] True
       = ([Call_get_iss_location], Inl KeyError)"
proof -
  have h1: "iss_answer connection_error = Inl RequestException"
    by (simp add: connection_error_def)
  have h2: "iss_answer missing_position
      = Inr \<lparr>status_code = 200,
             json_result = Inr (JObj [(''message'', JStr ''success'')])\<rparr>
    \<and> \<not> (400 \<le> status_code \<lparr>status_code = 200,
             json_result = Inr (JObj [(''message'', JStr ''success'')])\<rparr>
          \<and> status_code \<lparr>status_code = 200,
             json_result = Inr (JObj [(''message'', JStr ''success'')])\<rparr> < 600)
    \<and> json_result \<lparr>status_code = 200,
             json_result = Inr (JObj [(''message'', JStr ''success'')])\<rparr>
        = Inr (JObj [(''message'', JStr ''success'')])
    \<and> map_of [(''message'', JStr ''success'')] ''iss_position'' = None"
    by (simp add: missing_position_def)
  note t = request_failure_skips_iteration[where answer = "iss_answer connection_error"
      and w = connection_error and F = rejecting and I = rejecting and cfg = credentials
      and se = True and sent = True and obs = "[overhead_night]" and w' = missing_position
      and r' = "\<lparr>status_code = 200,
                 json_result = Inr (JObj [(''message'', JStr ''success'')])\<rparr>"
      and items = "[(''message'', JStr ''success'')]"]
  have g: "get_iss_location rejecting (iss_answer connection_error) = Inr (None, None)"
    using t h1 by blast
  show ?thesis using t h1 h2 g by blast
qed

text \<open>
  Against claim C7 as it is written: two malformed responses for which the fetcher
  raises instead of returning "unavailable", a document without
  \<^verbatim>\<open>iss_position\<close> and one whose coordinates are \<^verbatim>\<open>null\<close>; and a run that
  ends at the first of them, without reaching the next iteration.
\<close>

theorem malformed_response_raises:
  "get_iss_location rejecting (iss_answer missing_position) = Inl KeyError
   \<and> get_iss_location rejecting (iss_answer null_position) = Inl TypeError
   \<and> main_loop credentials True
        [observe rejecting rejecting missing_position, overhead_night] False
       = ([Call_get_iss_location], Inl KeyError)"
  by (simp add: get_iss_location_def iss_location_try_def and_then_def raise_for_status_def
      observe_def main_iteration_def missing_position_def null_position_def
      connection_error_def)


end
